theory Spec2Isabelle
  imports Complex_Main
begin

section \<open>The Huovilainen ladder filter kernel\<close>

text \<open>
  A shallow embedding of \<^verbatim>\<open>huovilainenFilterKernel.c\<close>. The file-scope variables of the
  C file are the fields of one record; every exported function is a function on that
  record.

  Numbers: \<^verbatim>\<open>float\<close> and \<^verbatim>\<open>double\<close> are modelled as \<^typ>\<open>real\<close>. Rounding, overflow
  and the casts between the two widths are therefore not modelled: every arithmetic
  operation is exact. The one division whose divisor is a variable that can be zero
  (\<^verbatim>\<open>elapsed / envelopeDuration\<close>) has its IEEE result, which may be an infinity or a
  NaN, as its value; the model follows the code on it and stops, with a fault, only
  where the code stores an infinity or a NaN in a variable. The two \<^verbatim>\<open>int\<close> variables are
  modelled as \<^typ>\<open>int\<close>; they are only assigned and compared.
\<close>

subsection \<open>Constants\<close>

definition WEBEAUDIO_FRAME_SIZE :: nat where
  "WEBEAUDIO_FRAME_SIZE = 128"

text \<open>\<^verbatim>\<open>static double thermal = 0.000025\<close>: never assigned by any function.\<close>

definition thermal :: real where
  "thermal = 0.000025"

definition dcBlockCoeff :: real where
  "dcBlockCoeff = 0.995"

text \<open>The literal of the source, not the number \<^term>\<open>pi\<close>.\<close>

definition PI :: real where
  "PI = 3.14159265359"

definition SAMPLE_RATE :: real where
  "SAMPLE_RATE = 44100"

subsection \<open>State\<close>

record kernel =
  inputBuffer :: "real list"
  outputBuffer :: "real list"
  stage :: "real list"
  stageTanh :: "real list"
  delay :: "real list"
  tune :: real
  acr :: real
  resQuad :: real
  cutoff :: real
  resonance :: real
  targetCutoff :: real
  targetResonance :: real
  cutoffSmoothing :: real
  resonanceSmoothing :: real
  dcBlockInput :: real
  dcBlockOutput :: real
  manualCutoff :: real
  envelopeCutoff :: real
  envelopeActive :: int
  envelopeStartCutoff :: real
  envelopeTargetCutoff :: real
  envelopeStartTime :: real
  envelopeDuration :: real
  envelopeDecayTime :: real
  envelopeSustainLevel :: real
  envelopePhase :: int
  currentTime :: real

text \<open>
  The state of a freshly loaded module: the static initialisers of the C file. Variables
  without an initialiser (the buffers, the filter arrays and \<^verbatim>\<open>tune\<close>, \<^verbatim>\<open>acr\<close>,
  \<^verbatim>\<open>resQuad\<close>) are zero.
\<close>

definition fresh :: kernel where
  "fresh =
    \<lparr> inputBuffer = replicate 128 0,
      outputBuffer = replicate 128 0,
      stage = replicate 4 0,
      stageTanh = replicate 3 0,
      delay = replicate 6 0,
      tune = 0,
      acr = 0,
      resQuad = 0,
      cutoff = 1000,
      resonance = 0.1,
      targetCutoff = 1000,
      targetResonance = 0.1,
      cutoffSmoothing = 0.1,
      resonanceSmoothing = 0.1,
      dcBlockInput = 0,
      dcBlockOutput = 0,
      manualCutoff = 1000,
      envelopeCutoff = 1000,
      envelopeActive = 0,
      envelopeStartCutoff = 1000,
      envelopeTargetCutoff = 1000,
      envelopeStartTime = 0,
      envelopeDuration = 0,
      envelopeDecayTime = 0.5,
      envelopeSustainLevel = 0.5,
      envelopePhase = 0,
      currentTime = 0 \<rparr>"

text \<open>The fixed sizes of the C arrays.\<close>

definition wf :: "kernel \<Rightarrow> bool" where
  "wf s \<longleftrightarrow>
     length (inputBuffer s) = 128 \<and> length (outputBuffer s) = 128 \<and>
     length (stage s) = 4 \<and> length (stageTanh s) = 3 \<and> length (delay s) = 6"

subsection \<open>Coefficient mapper\<close>

text \<open>
  Lines 171 to 175: the normalised frequency \<^verbatim>\<open>fc\<close>, after \<^verbatim>\<open>fc = fmin(fc, 0.45)\<close>.
\<close>

definition clampedFc :: "real \<Rightarrow> real" where
  "clampedFc c = min (c / SAMPLE_RATE) 0.45"

definition updateFilterCoefficients :: "kernel \<Rightarrow> kernel" where
  "updateFilterCoefficients s =
    (let fc = clampedFc (cutoff s);
         f = fc * 0.5;
         fc2 = fc * fc;
         fc3 = fc * fc * fc;
         fcr = 1.8730 * fc3 + 0.4955 * fc2 - 0.6490 * fc + 0.9988;
         s1 = s\<lparr>acr := - 3.9364 * fc2 + 1.8409 * fc + 0.9968\<rparr>;
         s2 = s1\<lparr>tune := (1.0 - exp (- ((2 * PI) * f * fcr))) / thermal\<rparr>
     in s2\<lparr>resQuad := 4.0 * resonance s2 * acr s2\<rparr>)"

subsection \<open>Setters\<close>

definition setCutoff :: "real \<Rightarrow> kernel \<Rightarrow> kernel" where
  "setCutoff c s =
    (let s1 = s\<lparr>manualCutoff := c\<rparr>
     in if envelopeActive s1 = 0
        then updateFilterCoefficients (s1\<lparr>targetCutoff := c\<rparr>)
        else s1)"

definition setResonance :: "real \<Rightarrow> kernel \<Rightarrow> kernel" where
  "setResonance r s = updateFilterCoefficients (s\<lparr>targetResonance := r\<rparr>)"

definition setEnvelopeActive :: "int \<Rightarrow> kernel \<Rightarrow> kernel" where
  "setEnvelopeActive active s =
    (let s1 = s\<lparr>envelopeActive := active\<rparr>
     in if active = 0
        then updateFilterCoefficients
               (s1\<lparr>targetCutoff := manualCutoff s1, envelopePhase := 0\<rparr>)
        else s1)"

definition setEnvelopeCutoff :: "real \<Rightarrow> kernel \<Rightarrow> kernel" where
  "setEnvelopeCutoff c s =
    (let s1 = s\<lparr>envelopeCutoff := c\<rparr>
     in if envelopeActive s1 \<noteq> 0
        then updateFilterCoefficients (s1\<lparr>targetCutoff := c\<rparr>)
        else s1)"

definition setEnvelopeDecayTime :: "real \<Rightarrow> kernel \<Rightarrow> kernel" where
  "setEnvelopeDecayTime decayTime s = s\<lparr>envelopeDecayTime := decayTime\<rparr>"

definition setEnvelopeSustainLevel :: "real \<Rightarrow> kernel \<Rightarrow> kernel" where
  "setEnvelopeSustainLevel sustainLevel s = s\<lparr>envelopeSustainLevel := sustainLevel\<rparr>"

subsection \<open>Envelope generator\<close>

definition setEnvelopeAttack :: "real \<Rightarrow> real \<Rightarrow> real \<Rightarrow> kernel \<Rightarrow> kernel" where
  "setEnvelopeAttack startCutoff peakCutoff attackTime s =
     s\<lparr> envelopeStartCutoff := startCutoff,
        envelopeTargetCutoff := peakCutoff * 2.0,
        envelopeStartTime := currentTime s,
        envelopeDuration := attackTime,
        envelopePhase := 1,
        envelopeActive := 1 \<rparr>"

definition setEnvelopeRelease :: "real \<Rightarrow> real \<Rightarrow> kernel \<Rightarrow> kernel" where
  "setEnvelopeRelease target releaseTime s =
     s\<lparr> envelopeStartCutoff := envelopeCutoff s,
        envelopeTargetCutoff := target,
        envelopeStartTime := currentTime s,
        envelopeDuration := releaseTime,
        envelopePhase := 0 \<rparr>"

text \<open>
  The IEEE quotient of two finite numbers: a number when the divisor is not zero, an
  infinity when only the divisor is zero, a NaN for zero by zero. The zero of the reals
  stands for the float \<^verbatim>\<open>+0.0\<close>.
\<close>

datatype quotient = Finite real | PosInf | NegInf | NaN

definition fdiv :: "real \<Rightarrow> real \<Rightarrow> quotient" where
  "fdiv a b =
     (if b \<noteq> 0 then Finite (a / b)
      else if 0 < a then PosInf
      else if a < 0 then NegInf
      else NaN)"

text \<open>The comparison \<^verbatim>\<open>progress >= 1.0f\<close>: false on a NaN.\<close>

fun geOne :: "quotient \<Rightarrow> bool" where
  "geOne (Finite p) = (1.0 \<le> p)"
| "geOne PosInf = True"
| "geOne NegInf = False"
| "geOne NaN = False"

text \<open>The comparison \<^verbatim>\<open>progress < 1.0f\<close>: false on a NaN as well.\<close>

fun ltOne :: "quotient \<Rightarrow> bool" where
  "ltOne (Finite p) = (p < 1.0)"
| "ltOne PosInf = False"
| "ltOne NegInf = True"
| "ltOne NaN = False"

text \<open>
  \<open>NonFiniteCutoff\<close>: with a progress of minus infinity or NaN the code goes on and
  stores an infinity or a NaN in \<^verbatim>\<open>envelopeCutoff\<close> and \<^verbatim>\<open>targetCutoff\<close>; the fields of
  the model are real numbers, and the model stops there. \<open>OutOfBounds\<close>: a store
  outside the input buffer.
\<close>

datatype fault = NonFiniteCutoff | OutOfBounds

text \<open>Lines 164 to 166 of the source: the end of \<^verbatim>\<open>updateEnvelope\<close>.\<close>

definition applyProgress :: "real \<Rightarrow> kernel \<Rightarrow> kernel" where
  "applyProgress progress s =
    (let s1 = s\<lparr>envelopeCutoff :=
                  envelopeStartCutoff s
                  + (envelopeTargetCutoff s - envelopeStartCutoff s) * progress\<rparr>;
         s2 = s1\<lparr>targetCutoff := envelopeCutoff s1\<rparr>
     in updateFilterCoefficients s2)"

definition updateEnvelope :: "real \<Rightarrow> kernel \<Rightarrow> fault + kernel" where
  "updateEnvelope time s0 =
    (let s = s0\<lparr>currentTime := time\<rparr>
     in if envelopePhase s = 0 then Inr s
        else
          (let progress = fdiv (currentTime s - envelopeStartTime s) (envelopeDuration s)
           in if geOne progress then
                (if envelopePhase s = 1 then
                   (let s1 = s\<lparr>envelopeStartCutoff := envelopeTargetCutoff s\<rparr>;
                        sustainCutoff =
                          envelopeStartCutoff s1
                          + (manualCutoff s1 - envelopeStartCutoff s1)
                            * (1.0 - envelopeSustainLevel s1);
                        s2 = s1\<lparr> envelopeTargetCutoff := sustainCutoff,
                                 envelopeStartTime := currentTime s1,
                                 envelopeDuration := envelopeDecayTime s1,
                                 envelopePhase := 2 \<rparr>
                    in Inr (applyProgress 1.0 s2))
                 else if envelopePhase s = 2 then
                   Inr (applyProgress 1.0 (s\<lparr>envelopePhase := 3\<rparr>))
                 else if envelopePhase s = 3 then Inr s
                 else Inr (applyProgress 1.0 s))
              else
                (case progress of
                   Finite p \<Rightarrow> Inr (applyProgress p s)
                 | _ \<Rightarrow> Inl NonFiniteCutoff)))"

subsection \<open>Initialisation\<close>

definition init :: "kernel \<Rightarrow> kernel" where
  "init s =
    (let s1 = s\<lparr> stage := replicate 4 0,
                 delay := replicate 6 0,
                 stageTanh := replicate 3 0 \<rparr>;
         s2 = setCutoff 1000.0 s1;
         s3 = setResonance 0.1 s2
     in s3\<lparr> manualCutoff := 1000.0,
            envelopeCutoff := 1000.0,
            envelopeActive := 0,
            envelopePhase := 0,
            currentTime := 0.0,
            envelopeSustainLevel := 0.5,
            cutoffSmoothing := 0.1,
            resonanceSmoothing := 0.1 \<rparr>)"

subsection \<open>Parameter smoother and saturator\<close>

text \<open>
  The update in exact arithmetic. In \<^verbatim>\<open>float\<close> each of the three operations is rounded,
  and a step smaller than half a unit in the last place of \<^verbatim>\<open>current\<close> leaves it
  unchanged; the model does not have that.
\<close>

definition smoothParameter :: "real \<Rightarrow> real \<Rightarrow> real \<Rightarrow> real" where
  "smoothParameter current target smoothing = current + (target - current) * smoothing"

definition enhanced_tanh :: "real \<Rightarrow> real" where
  "enhanced_tanh x =
    (let basic_tanh = tanh x;
         asymmetry = (if x > 0 then 1.0 else 0.98);
         abs_x = \<bar>x\<bar>;
         input_scale = abs_x / (1.0 + abs_x);
         freq_scale = 1.0 / (1.0 + 2.0 * input_scale);
         harmonic_boost = 1.0 + 0.015 * input_scale * freq_scale;
         even_harmonic = 0.008 * x * input_scale * freq_scale / (1.0 + abs_x);
         third_harmonic = 0.006 * x * input_scale * input_scale * freq_scale;
         intermod = 0.004 * x * input_scale * freq_scale
     in asymmetry * basic_tanh * harmonic_boost + even_harmonic + third_harmonic + intermod)"

subsection \<open>Ladder filter core\<close>

text \<open>The body of the inner loop (lines 265 to 287): one oversampling sub-step.\<close>

definition ladderSubstep :: "real \<Rightarrow> kernel \<Rightarrow> kernel" where
  "ladderSubstep dcBlockedInput s =
    (let input_sample = dcBlockedInput - resQuad s * (delay s ! 5);
         v0 = delay s ! 0
              + tune s * (enhanced_tanh (input_sample * thermal) - stageTanh s ! 0);
         s1 = s\<lparr>stage := (stage s)[0 := v0], delay := (delay s)[0 := v0]\<rparr>;
         stage1_input = stage s1 ! 0;
         h0 = enhanced_tanh (stage1_input * thermal);
         s2 = s1\<lparr>stageTanh := (stageTanh s1)[0 := h0]\<rparr>;
         s3 = s2\<lparr>stage := (stage s2)[1 := delay s2 ! 1 + tune s2 * (h0 - stageTanh s2 ! 1)]\<rparr>;
         s4 = s3\<lparr>delay := (delay s3)[1 := stage s3 ! 1]\<rparr>;
         stage2_input = stage s4 ! 1;
         h1 = enhanced_tanh (stage2_input * thermal);
         s5 = s4\<lparr>stageTanh := (stageTanh s4)[1 := h1]\<rparr>;
         s6 = s5\<lparr>stage := (stage s5)[2 := delay s5 ! 2 + tune s5 * (h1 - stageTanh s5 ! 2)]\<rparr>;
         s7 = s6\<lparr>delay := (delay s6)[2 := stage s6 ! 2]\<rparr>;
         stage3_input = stage s7 ! 2;
         h2 = enhanced_tanh (stage3_input * thermal);
         s8 = s7\<lparr>stageTanh := (stageTanh s7)[2 := h2]\<rparr>;
         s9 = s8\<lparr>stage := (stage s8)[3 := delay s8 ! 3
                      + tune s8 * (h2 - enhanced_tanh (delay s8 ! 3 * thermal))]\<rparr>;
         s10 = s9\<lparr>delay := (delay s9)[3 := stage s9 ! 3]\<rparr>;
         s11 = s10\<lparr>delay := (delay s10)[5 := (stage s10 ! 3 + delay s10 ! 4) * 0.5]\<rparr>
     in s11\<lparr>delay := (delay s11)[4 := stage s11 ! 3]\<rparr>)"

text \<open>The inner loop \<^verbatim>\<open>for (int j = 0; j < 2; j++)\<close>.\<close>

function oversampleLoop :: "nat \<Rightarrow> real \<Rightarrow> kernel \<Rightarrow> kernel" where
  "oversampleLoop j dcBlockedInput s =
     (if j < 2 then oversampleLoop (j + 1) dcBlockedInput (ladderSubstep dcBlockedInput s)
      else s)"
  by pat_completeness auto
termination
  by (relation "measure (\<lambda>(j, d, s). 2 - j)") auto

text \<open>The body of the outer loop (lines 257 to 290): one input sample.\<close>

definition processSample :: "nat \<Rightarrow> kernel \<Rightarrow> kernel" where
  "processSample i s =
    (let input = inputBuffer s ! i;
         dcBlockedInput = input - dcBlockInput s + dcBlockCoeff * dcBlockOutput s;
         s1 = s\<lparr>dcBlockInput := input\<rparr>;
         s2 = s1\<lparr>dcBlockOutput := dcBlockedInput\<rparr>;
         s3 = oversampleLoop 0 dcBlockedInput s2
     in s3\<lparr>outputBuffer := (outputBuffer s3)[i := delay s3 ! 5]\<rparr>)"

text \<open>The outer loop \<^verbatim>\<open>for (int i = 0; i < WEBEAUDIO_FRAME_SIZE; i++)\<close>.\<close>

function sampleLoop :: "nat \<Rightarrow> kernel \<Rightarrow> kernel" where
  "sampleLoop i s =
     (if i < WEBEAUDIO_FRAME_SIZE then sampleLoop (i + 1) (processSample i s) else s)"
  by pat_completeness auto
termination
  by (relation "measure (\<lambda>(i, s). WEBEAUDIO_FRAME_SIZE - i)") auto

text \<open>The exported function \<^verbatim>\<open>filter\<close>.\<close>

definition filter_block :: "kernel \<Rightarrow> kernel" where
  "filter_block s =
    (let s1 = s\<lparr>cutoff := smoothParameter (cutoff s) (targetCutoff s) (cutoffSmoothing s)\<rparr>;
         s2 = s1\<lparr>resonance :=
                   smoothParameter (resonance s1) (targetResonance s1) (resonanceSmoothing s1)\<rparr>;
         s3 = updateFilterCoefficients s2
     in sampleLoop 0 s3)"

declare oversampleLoop.simps [simp del]
declare sampleLoop.simps [simp del]

subsection \<open>The exported interface\<close>

text \<open>
  One constructor for each exported function. \<open>WriteInput i x\<close> is the host storing the
  sample \<open>x\<close> at index \<open>i\<close> through the pointer that \<^verbatim>\<open>inputBufferPtr\<close> returns; a store
  outside the 128 elements of the buffer is a fault.
\<close>

datatype call =
    SetCutoff real
  | SetResonance real
  | SetEnvelopeActive int
  | SetEnvelopeCutoff real
  | SetEnvelopeDecayTime real
  | SetEnvelopeSustainLevel real
  | SetEnvelopeAttack real real real
  | SetEnvelopeRelease real real
  | UpdateEnvelope real
  | Init
  | Filter
  | WriteInput nat real

fun exec :: "call \<Rightarrow> kernel \<Rightarrow> fault + kernel" where
  "exec (SetCutoff c) s = Inr (setCutoff c s)"
| "exec (SetResonance r) s = Inr (setResonance r s)"
| "exec (SetEnvelopeActive a) s = Inr (setEnvelopeActive a s)"
| "exec (SetEnvelopeCutoff c) s = Inr (setEnvelopeCutoff c s)"
| "exec (SetEnvelopeDecayTime d) s = Inr (setEnvelopeDecayTime d s)"
| "exec (SetEnvelopeSustainLevel l) s = Inr (setEnvelopeSustainLevel l s)"
| "exec (SetEnvelopeAttack a p t) s = Inr (setEnvelopeAttack a p t s)"
| "exec (SetEnvelopeRelease c t) s = Inr (setEnvelopeRelease c t s)"
| "exec (UpdateEnvelope t) s = updateEnvelope t s"
| "exec Init s = Inr (init s)"
| "exec Filter s = Inr (filter_block s)"
| "exec (WriteInput i x) s =
     (if i < WEBEAUDIO_FRAME_SIZE then Inr (s\<lparr>inputBuffer := (inputBuffer s)[i := x]\<rparr>)
      else Inl OutOfBounds)"

text \<open>A sequence of calls, from left to right, stopping at the first fault.\<close>

fun run :: "call list \<Rightarrow> kernel \<Rightarrow> fault + kernel" where
  "run [] s = Inr s"
| "run (c # cs) s = (case exec c s of Inl e \<Rightarrow> Inl e | Inr s' \<Rightarrow> run cs s')"


subsection \<open>Auxiliary notions for the properties\<close>

text \<open>
  \<open>ladderFrame s s'\<close>: the state \<open>s'\<close> differs from \<open>s\<close> at most in the fields that the
  sample loop of \<^verbatim>\<open>filter\<close> assigns.
\<close>

definition ladderFrame :: "kernel \<Rightarrow> kernel \<Rightarrow> bool" where
  "ladderFrame s s' \<longleftrightarrow>
     s' = s\<lparr> stage := stage s', stageTanh := stageTanh s', delay := delay s',
             dcBlockInput := dcBlockInput s', dcBlockOutput := dcBlockOutput s',
             outputBuffer := outputBuffer s' \<rparr>"

text \<open>
  The durations that \<^verbatim>\<open>updateEnvelope\<close> can divide by are positive, in the state and
  in the arguments of a call.
\<close>

definition positiveDurations :: "kernel \<Rightarrow> bool" where
  "positiveDurations s \<longleftrightarrow>
     0 < envelopeDecayTime s \<and> (envelopePhase s = 0 \<or> 0 < envelopeDuration s)"

fun positiveCall :: "call \<Rightarrow> bool" where
  "positiveCall (SetEnvelopeAttack a p t) = (0 < t)"
| "positiveCall (SetEnvelopeRelease c t) = (0 < t)"
| "positiveCall (SetEnvelopeDecayTime d) = (0 < d)"
| "positiveCall c = True"


text \<open>
  The envelope cutoff after each of a sequence of \<^verbatim>\<open>updateEnvelope\<close> calls, up to the
  first fault.
\<close>

fun cutoffTrace :: "real list \<Rightarrow> kernel \<Rightarrow> real list" where
  "cutoffTrace [] s = []"
| "cutoffTrace (t # ts) s =
     (case updateEnvelope t s of
        Inl e \<Rightarrow> []
      | Inr s' \<Rightarrow> envelopeCutoff s' # cutoffTrace ts s')"

text \<open>
  The Held phase as \<^verbatim>\<open>updateEnvelope\<close> enters it: at the time of the last call, which
  was not before the start of the decay, the progress of the decay was at least 1.
\<close>

definition held :: "kernel \<Rightarrow> bool" where
  "held s \<longleftrightarrow>
     envelopePhase s = 3 \<and> envelopeStartTime s \<le> currentTime s \<and>
     geOne (fdiv (currentTime s - envelopeStartTime s) (envelopeDuration s))"

text \<open>
  The coefficients are the ones that a recomputation from the live cutoff and resonance
  gives.
\<close>

definition coefficientsCurrent :: "kernel \<Rightarrow> bool" where
  "coefficientsCurrent s \<longleftrightarrow>
     tune s = tune (updateFilterCoefficients s) \<and>
     acr s = acr (updateFilterCoefficients s) \<and>
     resQuad s = resQuad (updateFilterCoefficients s)"

text \<open>The largest finite \<^verbatim>\<open>float\<close> of C, \<^verbatim>\<open>FLT_MAX\<close> of \<^verbatim>\<open>float.h\<close>.\<close>

definition FLT_MAX :: real where
  "FLT_MAX = (2 - 1 / 2 ^ 23) * 2 ^ 127"

subsection \<open>The ladder filter core in the words of the specification\<close>

text \<open>
  Section 4.5 of the specification, steps 1 to 6 of one sub-step, on the six-slot delay
  line and the three saturator caches; \<open>saturate\<close> is \<^const>\<open>enhanced_tanh\<close>.
\<close>

definition spec_substep ::
  "real \<Rightarrow> real \<Rightarrow> real \<Rightarrow> real list \<times> real list \<Rightarrow> real list \<times> real list" where
  "spec_substep tuneC resQuadC dcBlockedSample L =
    (let dl = fst L;
         st = snd L;
         feedbackInput = dcBlockedSample - resQuadC * dl ! 5;
         newStage0 = dl ! 0 + tuneC * (enhanced_tanh (feedbackInput * thermal) - st ! 0);
         stageTanh0 = enhanced_tanh (newStage0 * thermal);
         newStage1 = dl ! 1 + tuneC * (stageTanh0 - st ! 1);
         stageTanh1 = enhanced_tanh (newStage1 * thermal);
         newStage2 = dl ! 2 + tuneC * (stageTanh1 - st ! 2);
         stageTanh2 = enhanced_tanh (newStage2 * thermal);
         newStage3 = dl ! 3 + tuneC * (stageTanh2 - enhanced_tanh (dl ! 3 * thermal))
     in ([newStage0, newStage1, newStage2, newStage3, newStage3, (newStage3 + dl ! 4) / 2],
         [stageTanh0, stageTanh1, stageTanh2]))"

text \<open>
  Sections 4.2 and 4.5: the DC blocker, then two sub-steps with the same DC-blocked
  sample; the output sample is \<open>delay[5]\<close>. The state is the previous input, the previous
  blocked output and the ladder state.
\<close>

definition spec_sample ::
  "real \<Rightarrow> real \<Rightarrow> real \<Rightarrow> real \<times> real \<times> real list \<times> real list
     \<Rightarrow> real \<times> real \<times> real \<times> real list \<times> real list" where
  "spec_sample tuneC resQuadC input S =
    (let prevInput = fst S;
         prevOutput = fst (snd S);
         dcBlocked = input - prevInput + dcBlockCoeff * prevOutput;
         L = spec_substep tuneC resQuadC dcBlocked
               (spec_substep tuneC resQuadC dcBlocked (snd (snd S)))
     in (fst L ! 5, input, dcBlocked, L))"

fun spec_block ::
  "real \<Rightarrow> real \<Rightarrow> real list \<Rightarrow> real \<times> real \<times> real list \<times> real list
     \<Rightarrow> real list \<times> real \<times> real \<times> real list \<times> real list" where
  "spec_block tuneC resQuadC [] S = ([], S)"
| "spec_block tuneC resQuadC (x # xs) S =
     (let r = spec_sample tuneC resQuadC x S;
          rs = spec_block tuneC resQuadC xs (snd r)
      in (fst r # fst rs, snd rs))"

text \<open>
  A state whose ladder, caches, DC blocker and coefficients are all different from zero,
  with an input block of ones.
\<close>

definition drivenState :: kernel where
  "drivenState =
     fresh\<lparr> inputBuffer := replicate 128 1,
            delay := [1, 2, 3, 4, 5, 6],
            stageTanh := [1 / 2, 1 / 3, 1 / 4],
            tune := 2,
            resQuad := 3,
            dcBlockInput := 1 / 2,
            dcBlockOutput := 2 \<rparr>"

text \<open>The part of the kernel state that the specification's ladder works on.\<close>

definition ladderOf :: "kernel \<Rightarrow> real \<times> real \<times> real list \<times> real list" where
  "ladderOf s = (dcBlockInput s, dcBlockOutput s, delay s, stageTanh s)"

section \<open>Properties\<close>

subsection \<open>Frame lemmas\<close>

lemma ufc_fields [simp]:
  "envelopePhase (updateFilterCoefficients s) = envelopePhase s"
  "envelopeActive (updateFilterCoefficients s) = envelopeActive s"
  "envelopeCutoff (updateFilterCoefficients s) = envelopeCutoff s"
  "envelopeStartCutoff (updateFilterCoefficients s) = envelopeStartCutoff s"
  "envelopeTargetCutoff (updateFilterCoefficients s) = envelopeTargetCutoff s"
  "envelopeStartTime (updateFilterCoefficients s) = envelopeStartTime s"
  "envelopeDuration (updateFilterCoefficients s) = envelopeDuration s"
  "envelopeDecayTime (updateFilterCoefficients s) = envelopeDecayTime s"
  "envelopeSustainLevel (updateFilterCoefficients s) = envelopeSustainLevel s"
  "currentTime (updateFilterCoefficients s) = currentTime s"
  "manualCutoff (updateFilterCoefficients s) = manualCutoff s"
  "targetCutoff (updateFilterCoefficients s) = targetCutoff s"
  "targetResonance (updateFilterCoefficients s) = targetResonance s"
  "cutoff (updateFilterCoefficients s) = cutoff s"
  "resonance (updateFilterCoefficients s) = resonance s"
  "cutoffSmoothing (updateFilterCoefficients s) = cutoffSmoothing s"
  "resonanceSmoothing (updateFilterCoefficients s) = resonanceSmoothing s"
  "dcBlockInput (updateFilterCoefficients s) = dcBlockInput s"
  "dcBlockOutput (updateFilterCoefficients s) = dcBlockOutput s"
  "inputBuffer (updateFilterCoefficients s) = inputBuffer s"
  "outputBuffer (updateFilterCoefficients s) = outputBuffer s"
  "stage (updateFilterCoefficients s) = stage s"
  "stageTanh (updateFilterCoefficients s) = stageTanh s"
  "delay (updateFilterCoefficients s) = delay s"
  by (simp_all add: updateFilterCoefficients_def Let_def)

lemma applyProgress_fields [simp]:
  "envelopeCutoff (applyProgress p s) =
     envelopeStartCutoff s + (envelopeTargetCutoff s - envelopeStartCutoff s) * p"
  "targetCutoff (applyProgress p s) =
     envelopeStartCutoff s + (envelopeTargetCutoff s - envelopeStartCutoff s) * p"
  "envelopePhase (applyProgress p s) = envelopePhase s"
  "envelopeActive (applyProgress p s) = envelopeActive s"
  "envelopeStartCutoff (applyProgress p s) = envelopeStartCutoff s"
  "envelopeTargetCutoff (applyProgress p s) = envelopeTargetCutoff s"
  "envelopeStartTime (applyProgress p s) = envelopeStartTime s"
  "envelopeDuration (applyProgress p s) = envelopeDuration s"
  "envelopeDecayTime (applyProgress p s) = envelopeDecayTime s"
  "envelopeSustainLevel (applyProgress p s) = envelopeSustainLevel s"
  "currentTime (applyProgress p s) = currentTime s"
  "manualCutoff (applyProgress p s) = manualCutoff s"
  "cutoff (applyProgress p s) = cutoff s"
  "resonance (applyProgress p s) = resonance s"
  "cutoffSmoothing (applyProgress p s) = cutoffSmoothing s"
  "resonanceSmoothing (applyProgress p s) = resonanceSmoothing s"
  "inputBuffer (applyProgress p s) = inputBuffer s"
  "outputBuffer (applyProgress p s) = outputBuffer s"
  "stage (applyProgress p s) = stage s"
  "stageTanh (applyProgress p s) = stageTanh s"
  "delay (applyProgress p s) = delay s"
  by (simp_all add: applyProgress_def Let_def)

lemma ladderFrame_refl: "ladderFrame s s"
  by (simp add: ladderFrame_def)

lemma ladderFrame_trans:
  assumes "ladderFrame s s'" "ladderFrame s' s''"
  shows "ladderFrame s s''"
proof -
  have a: "s' = s\<lparr> stage := stage s', stageTanh := stageTanh s', delay := delay s',
             dcBlockInput := dcBlockInput s', dcBlockOutput := dcBlockOutput s',
             outputBuffer := outputBuffer s' \<rparr>"
    using assms(1) by (simp add: ladderFrame_def)
  have b: "s'' = s'\<lparr> stage := stage s'', stageTanh := stageTanh s'', delay := delay s'',
             dcBlockInput := dcBlockInput s'', dcBlockOutput := dcBlockOutput s'',
             outputBuffer := outputBuffer s'' \<rparr>"
    using assms(2) by (simp add: ladderFrame_def)
  show ?thesis
    unfolding ladderFrame_def by (subst b, subst a) simp
qed

lemma ladderFrame_substep: "ladderFrame s (ladderSubstep d s)"
  by (simp add: ladderFrame_def ladderSubstep_def Let_def)

lemma ladderFrame_oversample: "ladderFrame s (oversampleLoop j d s)"
proof (induction j d s rule: oversampleLoop.induct)
  case (1 j d s)
  show ?case
  proof (cases "j < 2")
    case True
    then show ?thesis
      using "1.IH" ladderFrame_substep [of s d]
      by (subst oversampleLoop.simps) (auto intro: ladderFrame_trans)
  next
    case False
    then show ?thesis
      by (subst oversampleLoop.simps) (simp add: ladderFrame_refl)
  qed
qed

lemma ladderFrame_processSample: "ladderFrame s (processSample i s)"
proof -
  let ?x = "inputBuffer s ! i"
  let ?d = "?x - dcBlockInput s + dcBlockCoeff * dcBlockOutput s"
  let ?s2 = "s\<lparr>dcBlockInput := ?x, dcBlockOutput := ?d\<rparr>"
  let ?s3 = "oversampleLoop 0 ?d ?s2"
  have "ladderFrame s ?s2" by (simp add: ladderFrame_def)
  moreover have "ladderFrame ?s2 ?s3" by (rule ladderFrame_oversample)
  moreover have "ladderFrame ?s3 (?s3\<lparr>outputBuffer := (outputBuffer ?s3)[i := delay ?s3 ! 5]\<rparr>)"
    by (simp add: ladderFrame_def)
  ultimately have "ladderFrame s (?s3\<lparr>outputBuffer := (outputBuffer ?s3)[i := delay ?s3 ! 5]\<rparr>)"
    by (blast intro: ladderFrame_trans)
  then show ?thesis by (simp add: processSample_def Let_def)
qed

lemma ladderFrame_sampleLoop: "ladderFrame s (sampleLoop i s)"
proof (induction i s rule: sampleLoop.induct)
  case (1 i s)
  show ?case
  proof (cases "i < WEBEAUDIO_FRAME_SIZE")
    case True
    then show ?thesis
      using "1.IH" ladderFrame_processSample [of s i]
      by (subst sampleLoop.simps) (auto intro: ladderFrame_trans)
  next
    case False
    then show ?thesis
      by (subst sampleLoop.simps) (simp add: ladderFrame_refl)
  qed
qed

lemma ladderFrame_fields:
  assumes "ladderFrame s s'"
  shows "inputBuffer s' = inputBuffer s" "tune s' = tune s" "acr s' = acr s"
    "resQuad s' = resQuad s" "cutoff s' = cutoff s" "resonance s' = resonance s"
    "targetCutoff s' = targetCutoff s" "targetResonance s' = targetResonance s"
    "cutoffSmoothing s' = cutoffSmoothing s" "resonanceSmoothing s' = resonanceSmoothing s"
    "manualCutoff s' = manualCutoff s" "envelopeCutoff s' = envelopeCutoff s"
    "envelopeActive s' = envelopeActive s" "envelopeStartCutoff s' = envelopeStartCutoff s"
    "envelopeTargetCutoff s' = envelopeTargetCutoff s" "envelopeStartTime s' = envelopeStartTime s"
    "envelopeDuration s' = envelopeDuration s" "envelopeDecayTime s' = envelopeDecayTime s"
    "envelopeSustainLevel s' = envelopeSustainLevel s" "envelopePhase s' = envelopePhase s"
    "currentTime s' = currentTime s"
proof -
  have a: "s' = s\<lparr> stage := stage s', stageTanh := stageTanh s', delay := delay s',
             dcBlockInput := dcBlockInput s', dcBlockOutput := dcBlockOutput s',
             outputBuffer := outputBuffer s' \<rparr>"
    using assms by (simp add: ladderFrame_def)
  show "inputBuffer s' = inputBuffer s" by (subst a) simp
  show "tune s' = tune s" by (subst a) simp
  show "acr s' = acr s" by (subst a) simp
  show "resQuad s' = resQuad s" by (subst a) simp
  show "cutoff s' = cutoff s" by (subst a) simp
  show "resonance s' = resonance s" by (subst a) simp
  show "targetCutoff s' = targetCutoff s" by (subst a) simp
  show "targetResonance s' = targetResonance s" by (subst a) simp
  show "cutoffSmoothing s' = cutoffSmoothing s" by (subst a) simp
  show "resonanceSmoothing s' = resonanceSmoothing s" by (subst a) simp
  show "manualCutoff s' = manualCutoff s" by (subst a) simp
  show "envelopeCutoff s' = envelopeCutoff s" by (subst a) simp
  show "envelopeActive s' = envelopeActive s" by (subst a) simp
  show "envelopeStartCutoff s' = envelopeStartCutoff s" by (subst a) simp
  show "envelopeTargetCutoff s' = envelopeTargetCutoff s" by (subst a) simp
  show "envelopeStartTime s' = envelopeStartTime s" by (subst a) simp
  show "envelopeDuration s' = envelopeDuration s" by (subst a) simp
  show "envelopeDecayTime s' = envelopeDecayTime s" by (subst a) simp
  show "envelopeSustainLevel s' = envelopeSustainLevel s" by (subst a) simp
  show "envelopePhase s' = envelopePhase s" by (subst a) simp
  show "currentTime s' = currentTime s" by (subst a) simp
qed


subsection \<open>Invariants\<close>

lemma wf_substep: "wf s \<Longrightarrow> wf (ladderSubstep d s)"
  by (simp add: wf_def ladderSubstep_def Let_def)

lemma wf_oversample: "wf s \<Longrightarrow> wf (oversampleLoop j d s)"
proof (induction j d s rule: oversampleLoop.induct)
  case (1 j d s)
  then show ?case
    by (subst oversampleLoop.simps) (simp add: wf_substep)
qed

lemma wf_processSample: "wf s \<Longrightarrow> wf (processSample i s)"
proof -
  assume a: "wf s"
  let ?d = "inputBuffer s ! i - dcBlockInput s + dcBlockCoeff * dcBlockOutput s"
  let ?s2 = "s\<lparr>dcBlockInput := inputBuffer s ! i, dcBlockOutput := ?d\<rparr>"
  have "wf ?s2" using a by (simp add: wf_def)
  then have "wf (oversampleLoop 0 ?d ?s2)" by (rule wf_oversample)
  then show ?thesis by (simp add: processSample_def Let_def wf_def)
qed

lemma wf_sampleLoop: "wf s \<Longrightarrow> wf (sampleLoop i s)"
proof (induction i s rule: sampleLoop.induct)
  case (1 i s)
  then show ?case
    by (subst sampleLoop.simps) (simp add: wf_processSample)
qed

lemma wf_ufc [simp]: "wf (updateFilterCoefficients s) = wf s"
  by (simp add: wf_def)

lemma wf_filter_block: "wf s \<Longrightarrow> wf (filter_block s)"
proof -
  assume a: "wf s"
  let ?s2 = "s\<lparr>cutoff := smoothParameter (cutoff s) (targetCutoff s) (cutoffSmoothing s),
           resonance := smoothParameter (resonance s) (targetResonance s) (resonanceSmoothing s)\<rparr>"
  have "wf ?s2" using a by (simp add: wf_def)
  then have "wf (sampleLoop 0 (updateFilterCoefficients ?s2))"
    by (simp add: wf_sampleLoop)
  then show ?thesis by (simp add: filter_block_def Let_def)
qed

lemma filter_block_frame:
  "ladderFrame
     (updateFilterCoefficients
        (s\<lparr>cutoff := smoothParameter (cutoff s) (targetCutoff s) (cutoffSmoothing s),
           resonance := smoothParameter (resonance s) (targetResonance s) (resonanceSmoothing s)\<rparr>))
     (filter_block s)"
  by (simp add: filter_block_def Let_def ladderFrame_sampleLoop)

lemma filter_block_fields:
  "cutoff (filter_block s) = smoothParameter (cutoff s) (targetCutoff s) (cutoffSmoothing s)"
  "resonance (filter_block s) = smoothParameter (resonance s) (targetResonance s) (resonanceSmoothing s)"
  "targetCutoff (filter_block s) = targetCutoff s"
  "targetResonance (filter_block s) = targetResonance s"
  "cutoffSmoothing (filter_block s) = cutoffSmoothing s"
  "resonanceSmoothing (filter_block s) = resonanceSmoothing s"
  "envelopeActive (filter_block s) = envelopeActive s"
  "envelopePhase (filter_block s) = envelopePhase s"
  "envelopeDuration (filter_block s) = envelopeDuration s"
  "envelopeDecayTime (filter_block s) = envelopeDecayTime s"
  "envelopeCutoff (filter_block s) = envelopeCutoff s"
  "manualCutoff (filter_block s) = manualCutoff s"
  "currentTime (filter_block s) = currentTime s"
  "inputBuffer (filter_block s) = inputBuffer s"
  using ladderFrame_fields [OF filter_block_frame [of s]] by simp_all

lemma setter_fields [simp]:
  "envelopePhase (setCutoff c s) = envelopePhase s"
  "envelopeActive (setCutoff c s) = envelopeActive s"
  "envelopeDuration (setCutoff c s) = envelopeDuration s"
  "envelopeDecayTime (setCutoff c s) = envelopeDecayTime s"
  "cutoffSmoothing (setCutoff c s) = cutoffSmoothing s"
  "resonanceSmoothing (setCutoff c s) = resonanceSmoothing s"
  "cutoff (setCutoff c s) = cutoff s"
  "resonance (setCutoff c s) = resonance s"
  "envelopePhase (setResonance r s) = envelopePhase s"
  "envelopeActive (setResonance r s) = envelopeActive s"
  "envelopeDuration (setResonance r s) = envelopeDuration s"
  "envelopeDecayTime (setResonance r s) = envelopeDecayTime s"
  "cutoffSmoothing (setResonance r s) = cutoffSmoothing s"
  "resonanceSmoothing (setResonance r s) = resonanceSmoothing s"
  "cutoff (setResonance r s) = cutoff s"
  "resonance (setResonance r s) = resonance s"
  "wf (setCutoff c s) = wf s"
  "wf (setResonance r s) = wf s"
  "inputBuffer (setCutoff c s) = inputBuffer s"
  "outputBuffer (setCutoff c s) = outputBuffer s"
  "stage (setCutoff c s) = stage s"
  "stageTanh (setCutoff c s) = stageTanh s"
  "delay (setCutoff c s) = delay s"
  "dcBlockInput (setCutoff c s) = dcBlockInput s"
  "dcBlockOutput (setCutoff c s) = dcBlockOutput s"
  "inputBuffer (setResonance r s) = inputBuffer s"
  "outputBuffer (setResonance r s) = outputBuffer s"
  "stage (setResonance r s) = stage s"
  "stageTanh (setResonance r s) = stageTanh s"
  "delay (setResonance r s) = delay s"
  "dcBlockInput (setResonance r s) = dcBlockInput s"
  "dcBlockOutput (setResonance r s) = dcBlockOutput s"
  by (simp_all add: setCutoff_def setResonance_def Let_def wf_def)


lemma updateEnvelope_keeps_all:
  assumes "updateEnvelope t s = Inr s'"
  shows "wf s' = wf s \<and> cutoffSmoothing s' = cutoffSmoothing s
     \<and> resonanceSmoothing s' = resonanceSmoothing s \<and> envelopeActive s' = envelopeActive s
     \<and> (envelopePhase s = 0 \<longleftrightarrow> envelopePhase s' = 0)
     \<and> envelopeDecayTime s' = envelopeDecayTime s
     \<and> cutoff s' = cutoff s \<and> resonance s' = resonance s"
proof (cases "envelopePhase s = 0")
  case True
  then have "s' = s\<lparr>currentTime := t\<rparr>"
    using assms by (simp add: updateEnvelope_def Let_def)
  then show ?thesis by (simp add: wf_def)
next
  case ph: False
  let ?q = "fdiv (t - envelopeStartTime s) (envelopeDuration s)"
  let ?u = "s\<lparr>currentTime := t\<rparr>"
  show ?thesis
  proof (cases "geOne ?q")
    case ge: True
    consider "envelopePhase s = 1" | "envelopePhase s = 2" | "envelopePhase s = 3"
      | "envelopePhase s \<noteq> 1" "envelopePhase s \<noteq> 2" "envelopePhase s \<noteq> 3"
      by blast
    then show ?thesis
    proof cases
      case 1
      then have "s' = applyProgress 1
          (?u\<lparr>envelopeStartCutoff := envelopeTargetCutoff s,
              envelopeTargetCutoff := envelopeTargetCutoff s
                + (manualCutoff s - envelopeTargetCutoff s) * (1 - envelopeSustainLevel s),
              envelopeStartTime := t, envelopeDuration := envelopeDecayTime s,
              envelopePhase := 2\<rparr>)"
        using assms ge by (simp add: updateEnvelope_def Let_def)
      then show ?thesis using ph by (simp add: wf_def)
    next
      case 2
      then have "s' = applyProgress 1 (?u\<lparr>envelopePhase := 3\<rparr>)"
        using assms ge by (simp add: updateEnvelope_def Let_def)
      then show ?thesis using ph by (simp add: wf_def)
    next
      case 3
      then have "s' = ?u" using assms ge by (simp add: updateEnvelope_def Let_def)
      then show ?thesis using ph by (simp add: wf_def)
    next
      case 4
      then have "s' = applyProgress 1 ?u"
        using assms ge ph by (simp add: updateEnvelope_def Let_def)
      then show ?thesis using ph by (simp add: wf_def)
    qed
  next
    case lt: False
    then obtain p where "?q = Finite p"
      using assms ph by (cases ?q) (simp_all add: updateEnvelope_def Let_def)
    then have "s' = applyProgress p ?u"
      using assms ph lt by (simp add: updateEnvelope_def Let_def)
    then show ?thesis using ph by (simp add: wf_def)
  qed
qed

lemma updateEnvelope_keeps:
  assumes "updateEnvelope t s = Inr s'"
  shows "wf s' = wf s" "cutoffSmoothing s' = cutoffSmoothing s"
    "resonanceSmoothing s' = resonanceSmoothing s" "envelopeActive s' = envelopeActive s"
    "envelopePhase s = 0 \<longleftrightarrow> envelopePhase s' = 0"
    "envelopeDecayTime s' = envelopeDecayTime s"
    "cutoff s' = cutoff s" "resonance s' = resonance s"
  using updateEnvelope_keeps_all [OF assms] by simp_all

lemma updateEnvelope_positive:
  assumes "positiveDurations s"
  shows "\<exists>s'. updateEnvelope t s = Inr s' \<and> positiveDurations s'"
proof (cases "envelopePhase s = 0")
  case True
  then show ?thesis using assms by (simp add: updateEnvelope_def Let_def positiveDurations_def)
next
  case False
  then have d: "0 < envelopeDuration s" "0 < envelopeDecayTime s"
    using assms by (simp_all add: positiveDurations_def)
  then have q: "fdiv (t - envelopeStartTime s) (envelopeDuration s)
      = Finite ((t - envelopeStartTime s) / envelopeDuration s)"
    by (simp add: fdiv_def)
  show ?thesis using False d
    by (simp add: updateEnvelope_def Let_def q positiveDurations_def)
qed

lemma updateEnvelope_shape:
  assumes "updateEnvelope t s = Inr s'"
  shows "s' = s\<lparr>currentTime := t\<rparr> \<or> (\<exists>p x. s' = applyProgress p x)"
proof (cases "envelopePhase s = 0")
  case True
  then show ?thesis using assms by (simp add: updateEnvelope_def Let_def)
next
  case ph: False
  let ?q = "fdiv (t - envelopeStartTime s) (envelopeDuration s)"
  show ?thesis
  proof (cases "geOne ?q")
    case ge: True
    consider "envelopePhase s = 1" | "envelopePhase s = 2" | "envelopePhase s = 3"
      | "envelopePhase s \<noteq> 1" "envelopePhase s \<noteq> 2" "envelopePhase s \<noteq> 3"
      by blast
    then show ?thesis
    proof cases
      case 1
      then have "s' = applyProgress 1
          (s\<lparr>currentTime := t, envelopeStartCutoff := envelopeTargetCutoff s,
              envelopeTargetCutoff := envelopeTargetCutoff s
                + (manualCutoff s - envelopeTargetCutoff s) * (1 - envelopeSustainLevel s),
              envelopeStartTime := t, envelopeDuration := envelopeDecayTime s,
              envelopePhase := 2\<rparr>)"
        using assms ge by (simp add: updateEnvelope_def Let_def)
      then show ?thesis by blast
    next
      case 2
      then have "s' = applyProgress 1 (s\<lparr>currentTime := t, envelopePhase := 3\<rparr>)"
        using assms ge by (simp add: updateEnvelope_def Let_def)
      then show ?thesis by blast
    next
      case 3
      then show ?thesis using assms ge by (simp add: updateEnvelope_def Let_def)
    next
      case 4
      then have "s' = applyProgress 1 (s\<lparr>currentTime := t\<rparr>)"
        using assms ge ph by (simp add: updateEnvelope_def Let_def)
      then show ?thesis by blast
    qed
  next
    case lt: False
    then obtain p where "?q = Finite p"
      using assms ph by (cases ?q) (simp_all add: updateEnvelope_def Let_def)
    then have "s' = applyProgress p (s\<lparr>currentTime := t\<rparr>)"
      using assms ph lt by (simp add: updateEnvelope_def Let_def)
    then show ?thesis by blast
  qed
qed



lemma positive_exec:
  assumes "positiveDurations s" "positiveCall c"
  shows "exec c s \<noteq> Inl NonFiniteCutoff \<and> (\<forall>s'. exec c s = Inr s' \<longrightarrow> positiveDurations s')"
proof (cases c)
  case (UpdateEnvelope t)
  then show ?thesis using updateEnvelope_positive [OF assms(1), of t] by auto
next
  case Filter
  then show ?thesis using assms
    by (auto simp add: positiveDurations_def filter_block_fields)
next
  case Init
  then show ?thesis using assms
    by (auto simp add: positiveDurations_def init_def Let_def)
qed (use assms in \<open>auto simp add: positiveDurations_def setEnvelopeActive_def setEnvelopeCutoff_def
      setEnvelopeDecayTime_def setEnvelopeSustainLevel_def setEnvelopeAttack_def
      setEnvelopeRelease_def Let_def\<close>)

lemma positive_run:
  "positiveDurations s \<Longrightarrow> list_all positiveCall cs \<Longrightarrow>
     run cs s \<noteq> Inl NonFiniteCutoff \<and> (\<forall>s'. run cs s = Inr s' \<longrightarrow> positiveDurations s')"
proof (induction cs arbitrary: s)
  case Nil
  then show ?case by simp
next
  case (Cons c cs)
  from Cons.prems have pc: "positiveCall c" and pcs: "list_all positiveCall cs" by simp_all
  note step = positive_exec [OF Cons.prems(1) pc]
  show ?case
  proof (cases "exec c s")
    case (Inl e)
    then show ?thesis using step by simp
  next
    case (Inr s1)
    then have "positiveDurations s1" using step by simp
    from Cons.IH [OF this pcs] Inr show ?thesis by simp
  qed
qed

subsection \<open>Envelope generator\<close>

lemma geOne_fdiv_later:
  assumes "geOne (fdiv (t - t0) d)" "t0 \<le> t" "t \<le> t'"
  shows "geOne (fdiv (t' - t0) d)"
proof (cases "d = 0")
  case True
  then show ?thesis using assms by (simp add: fdiv_def split: if_splits)
next
  case False
  have p: "1 \<le> (t - t0) / d" using assms(1) False by (simp add: fdiv_def)
  have "0 < d"
  proof (rule ccontr)
    assume "\<not> 0 < d"
    then have "d < 0" using False by simp
    then have "(t - t0) / d \<le> 0" using assms(2) by (simp add: divide_nonneg_neg)
    then show False using p by simp
  qed
  then have "(t - t0) / d \<le> (t' - t0) / d"
    using assms(3) by (simp add: divide_right_mono)
  then show ?thesis using p False by (simp add: fdiv_def)
qed

lemma ltOne_finite:
  assumes "fdiv e d \<noteq> NegInf" "ltOne (fdiv e d)"
  shows "fdiv e d = Finite (e / d)" "e / d < 1"
  using assms by (auto simp add: fdiv_def split: if_splits)

lemma ramp_step:
  assumes "envelopePhase s = 1 \<or> envelopePhase s = 2"
    and "fdiv (t - envelopeStartTime s) (envelopeDuration s) = Finite p" "p < 1"
  shows "updateEnvelope t s = Inr (applyProgress p (s\<lparr>currentTime := t\<rparr>))"
  using assms by (auto simp add: updateEnvelope_def Let_def)

lemma attack_done:
  assumes "envelopePhase s = 1"
    and "geOne (fdiv (t - envelopeStartTime s) (envelopeDuration s))"
  shows "\<exists>s'. updateEnvelope t s = Inr s' \<and> envelopePhase s' = 2
     \<and> envelopeStartCutoff s' = envelopeTargetCutoff s
     \<and> envelopeTargetCutoff s' =
         envelopeStartCutoff s'
         + (manualCutoff s - envelopeStartCutoff s') * (1 - envelopeSustainLevel s)
     \<and> envelopeStartTime s' = t \<and> envelopeDuration s' = envelopeDecayTime s"
  using assms by (simp add: updateEnvelope_def Let_def)

lemma attack_stays:
  assumes "envelopePhase s = 1"
    and "\<not> geOne (fdiv (t - envelopeStartTime s) (envelopeDuration s))"
    and "updateEnvelope t s = Inr s'"
  shows "envelopePhase s' = 1"
proof -
  let ?q = "fdiv (t - envelopeStartTime s) (envelopeDuration s)"
  obtain p where "?q = Finite p"
    using assms by (cases ?q) (simp_all add: updateEnvelope_def Let_def)
  then have "s' = applyProgress p (s\<lparr>currentTime := t\<rparr>)"
    using assms by (simp add: updateEnvelope_def Let_def)
  then show ?thesis using assms(1) by simp
qed

lemma decay_done:
  assumes "envelopePhase s = 2"
    and "geOne (fdiv (t - envelopeStartTime s) (envelopeDuration s))"
  shows "\<exists>s'. updateEnvelope t s = Inr s' \<and> envelopePhase s' = 3 \<and> currentTime s' = t
     \<and> envelopeCutoff s' = envelopeTargetCutoff s
     \<and> (envelopeStartTime s \<le> t \<longrightarrow> held s')"
  using assms by (simp add: updateEnvelope_def Let_def held_def)

lemma held_later:
  assumes "held s" "currentTime s \<le> t"
  shows "geOne (fdiv (t - envelopeStartTime s) (envelopeDuration s))"
  using geOne_fdiv_later [of "currentTime s" "envelopeStartTime s" "envelopeDuration s" t] assms
  by (simp add: held_def)

lemma held_step:
  assumes "held s" "currentTime s \<le> t"
  shows "updateEnvelope t s = Inr (s\<lparr>currentTime := t\<rparr>)"
  using held_later [OF assms] assms(1) by (simp add: updateEnvelope_def Let_def held_def)

lemma held_trace:
  "held s \<Longrightarrow> sorted ts \<Longrightarrow> \<forall>t\<in>set ts. currentTime s \<le> t \<Longrightarrow>
     cutoffTrace ts s = replicate (length ts) (envelopeCutoff s)"
proof (induction ts arbitrary: s)
  case Nil
  then show ?case by simp
next
  case (Cons t ts)
  have le: "currentTime s \<le> t" using Cons.prems(3) by simp
  have st: "updateEnvelope t s = Inr (s\<lparr>currentTime := t\<rparr>)"
    using held_step [OF Cons.prems(1) le] .
  have h: "held (s\<lparr>currentTime := t\<rparr>)"
    using held_later [OF Cons.prems(1) le] Cons.prems(1) le by (simp add: held_def)
  have "cutoffTrace ts (s\<lparr>currentTime := t\<rparr>)
          = replicate (length ts) (envelopeCutoff (s\<lparr>currentTime := t\<rparr>))"
    using Cons.prems(2) by (intro Cons.IH [OF h]) auto
  then show ?case using st by simp
qed

lemma attack_trace:
  "envelopePhase s = 1 \<Longrightarrow>
   \<forall>t\<in>set ts. fdiv (t - envelopeStartTime s) (envelopeDuration s) \<noteq> NegInf
      \<and> ltOne (fdiv (t - envelopeStartTime s) (envelopeDuration s)) \<Longrightarrow>
     cutoffTrace ts s =
       map (\<lambda>t. envelopeStartCutoff s
                 + (envelopeTargetCutoff s - envelopeStartCutoff s)
                   * ((t - envelopeStartTime s) / envelopeDuration s)) ts"
proof (induction ts arbitrary: s)
  case Nil
  then show ?case by simp
next
  case (Cons t ts)
  let ?p = "(t - envelopeStartTime s) / envelopeDuration s"
  let ?s' = "applyProgress ?p (s\<lparr>currentTime := t\<rparr>)"
  have t: "fdiv (t - envelopeStartTime s) (envelopeDuration s) \<noteq> NegInf"
    "ltOne (fdiv (t - envelopeStartTime s) (envelopeDuration s))"
    using Cons.prems(2) by simp_all
  have st: "updateEnvelope t s = Inr ?s'"
    using Cons.prems(1) ltOne_finite [OF t] by (intro ramp_step) simp_all
  have "cutoffTrace ts ?s' =
       map (\<lambda>t. envelopeStartCutoff ?s'
                 + (envelopeTargetCutoff ?s' - envelopeStartCutoff ?s')
                   * ((t - envelopeStartTime ?s') / envelopeDuration ?s')) ts"
    using Cons.prems by (intro Cons.IH) simp_all
  then show ?case using st by simp
qed

lemma sorted_affine:
  fixes a c :: real
  assumes "sorted ts" "0 \<le> c"
  shows "sorted (map (\<lambda>t. a + c * (t - t0)) ts)"
  using assms(1)
proof (induction ts)
  case Nil
  then show ?case by simp
next
  case (Cons t ts)
  have "a + c * (t - t0) \<le> a + c * (u - t0)" if "t \<le> u" for u
    using that assms(2) by (simp add: mult_left_mono)
  then show ?case using Cons by auto
qed

lemma sorted_affine_down:
  fixes a c :: real
  assumes "sorted ts" "c \<le> 0"
  shows "sorted (rev (map (\<lambda>t. a + c * (t - t0)) ts))"
  using assms(1)
proof (induction ts)
  case Nil
  then show ?case by simp
next
  case (Cons t ts)
  have "a + c * (u - t0) \<le> a + c * (t - t0)" if "t \<le> u" for u
    using that assms(2) by (simp add: mult_left_mono_neg)
  then show ?case using Cons by (auto simp add: sorted_append)
qed

lemma ramp_affine:
  fixes a b d :: real
  shows "map (\<lambda>t. a + (b - a) * ((t - t0) / d)) ts = map (\<lambda>t. a + (b - a) / d * (t - t0)) ts"
  by simp

lemma sorted_ramp:
  fixes a b d :: real
  assumes "sorted ts" "a \<le> b \<and> 0 < d \<or> b \<le> a \<and> d < 0"
  shows "sorted (map (\<lambda>t. a + (b - a) * ((t - t0) / d)) ts)"
proof -
  have "0 \<le> (b - a) / d"
  proof (cases "0 < d")
    case True
    then have "0 \<le> b - a" using assms(2) by simp
    then show ?thesis using True by (rule divide_nonneg_pos)
  next
    case False
    then have "b - a \<le> 0" "d < 0" using assms(2) by simp_all
    then show ?thesis by (rule divide_nonpos_neg)
  qed
  then have "sorted (map (\<lambda>t. a + (b - a) / d * (t - t0)) ts)"
    using assms(1) by (intro sorted_affine)
  then show ?thesis by (simp only: ramp_affine)
qed

lemma sorted_ramp_down:
  fixes a b d :: real
  assumes "sorted ts" "b \<le> a \<and> 0 < d \<or> a \<le> b \<and> d < 0"
  shows "sorted (rev (map (\<lambda>t. a + (b - a) * ((t - t0) / d)) ts))"
proof -
  have "(b - a) / d \<le> 0"
  proof (cases "0 < d")
    case True
    then have "b - a \<le> 0" using assms(2) by simp
    then show ?thesis using True by (rule divide_nonpos_pos)
  next
    case False
    then have "0 \<le> b - a" "d < 0" using assms(2) by simp_all
    then show ?thesis by (rule divide_nonneg_neg)
  qed
  then have "sorted (rev (map (\<lambda>t. a + (b - a) / d * (t - t0)) ts))"
    using assms(1) by (intro sorted_affine_down)
  then show ?thesis by (simp only: ramp_affine)
qed

text \<open>
  C3 (as amended). \<^verbatim>\<open>setEnvelopeAttack\<close> sets the target to twice the peak and the phase to
  Attack. Each advance with progress below 1 (and not minus infinity, the quotient of a
  time before the trigger by a zero attack time) sets the envelope cutoff to
  \<open>start + (2 * peak - start) * progress\<close>; along increasing times it rises when \<open>2 * peak - start\<close> and the attack time have the same sign and
  falls when they have opposite signs. In Attack the phase becomes Decay exactly when
  progress is at least 1 (an infinite progress, from a zero duration, included), with the
  new start the previous target, the new target
  \<open>start + (manualCutoff - start) * (1 - sustainLevel)\<close> and the configured decay time as
  duration. In Decay, progress at least 1 makes the phase Held, and from then on no
  advance at a later time changes the envelope cutoff.
\<close>

theorem envelope_lifecycle:
  "envelopeTargetCutoff (setEnvelopeAttack a p d s) = 2 * p
   \<and> envelopePhase (setEnvelopeAttack a p d s) = 1
   \<and> envelopeStartCutoff (setEnvelopeAttack a p d s) = a
   \<and> (sorted ts
        \<and> (\<forall>t\<in>set ts. fdiv (t - currentTime s) d \<noteq> NegInf
                 \<and> ltOne (fdiv (t - currentTime s) d)) \<longrightarrow>
        cutoffTrace ts (setEnvelopeAttack a p d s)
          = map (\<lambda>t. a + (2 * p - a) * ((t - currentTime s) / d)) ts
        \<and> (a \<le> 2 * p \<and> 0 < d \<or> 2 * p \<le> a \<and> d < 0 \<longrightarrow>
             sorted (cutoffTrace ts (setEnvelopeAttack a p d s)))
        \<and> (2 * p \<le> a \<and> 0 < d \<or> a \<le> 2 * p \<and> d < 0 \<longrightarrow>
             sorted (rev (cutoffTrace ts (setEnvelopeAttack a p d s)))))
   \<and> (envelopePhase s = 1 \<longrightarrow>
        (geOne (fdiv (t - envelopeStartTime s) (envelopeDuration s)) \<longrightarrow>
           (\<exists>s'. updateEnvelope t s = Inr s'
              \<and> envelopePhase s' = 2
              \<and> envelopeStartCutoff s' = envelopeTargetCutoff s
              \<and> envelopeTargetCutoff s' =
                  envelopeStartCutoff s'
                  + (manualCutoff s - envelopeStartCutoff s') * (1 - envelopeSustainLevel s)
              \<and> envelopeStartTime s' = t
              \<and> envelopeDuration s' = envelopeDecayTime s))
        \<and> (\<not> geOne (fdiv (t - envelopeStartTime s) (envelopeDuration s)) \<longrightarrow>
             (\<forall>s'. updateEnvelope t s = Inr s' \<longrightarrow> envelopePhase s' = 1))
        \<and> (fdiv (t - envelopeStartTime s) (envelopeDuration s) \<noteq> NegInf
             \<and> ltOne (fdiv (t - envelopeStartTime s) (envelopeDuration s)) \<longrightarrow>
             (\<exists>s'. updateEnvelope t s = Inr s' \<and> envelopePhase s' = 1)))
   \<and> (envelopePhase s = 2
        \<and> geOne (fdiv (t - envelopeStartTime s) (envelopeDuration s)) \<longrightarrow>
        (\<exists>s'. updateEnvelope t s = Inr s' \<and> envelopePhase s' = 3
           \<and> currentTime s' = t \<and> envelopeCutoff s' = envelopeTargetCutoff s
           \<and> (envelopeStartTime s \<le> t \<longrightarrow> held s')))
   \<and> (held s \<and> sorted ts \<and> (\<forall>t\<in>set ts. currentTime s \<le> t) \<longrightarrow>
        cutoffTrace ts s = replicate (length ts) (envelopeCutoff s))"
proof -
  let ?s0 = "setEnvelopeAttack a p d s"
  let ?q = "fdiv (t - envelopeStartTime s) (envelopeDuration s)"
  have f: "envelopeTargetCutoff ?s0 = 2 * p" "envelopePhase ?s0 = 1"
    "envelopeStartCutoff ?s0 = a" "envelopeStartTime ?s0 = currentTime s"
    "envelopeDuration ?s0 = d"
    by (simp_all add: setEnvelopeAttack_def)
  have b: "sorted ts
        \<and> (\<forall>t\<in>set ts. fdiv (t - currentTime s) d \<noteq> NegInf
                 \<and> ltOne (fdiv (t - currentTime s) d)) \<longrightarrow>
        cutoffTrace ts ?s0 = map (\<lambda>t. a + (2 * p - a) * ((t - currentTime s) / d)) ts
        \<and> (a \<le> 2 * p \<and> 0 < d \<or> 2 * p \<le> a \<and> d < 0 \<longrightarrow> sorted (cutoffTrace ts ?s0))
        \<and> (2 * p \<le> a \<and> 0 < d \<or> a \<le> 2 * p \<and> d < 0 \<longrightarrow>
             sorted (rev (cutoffTrace ts ?s0)))"
  proof (intro impI, elim conjE)
    assume h: "sorted ts"
      "\<forall>t\<in>set ts. fdiv (t - currentTime s) d \<noteq> NegInf
                 \<and> ltOne (fdiv (t - currentTime s) d)"
    have tr: "cutoffTrace ts ?s0 = map (\<lambda>t. a + (2 * p - a) * ((t - currentTime s) / d)) ts"
      using attack_trace [of ?s0 ts] h(2) by (simp add: f)
    show "cutoffTrace ts ?s0 = map (\<lambda>t. a + (2 * p - a) * ((t - currentTime s) / d)) ts
        \<and> (a \<le> 2 * p \<and> 0 < d \<or> 2 * p \<le> a \<and> d < 0 \<longrightarrow> sorted (cutoffTrace ts ?s0))
        \<and> (2 * p \<le> a \<and> 0 < d \<or> a \<le> 2 * p \<and> d < 0 \<longrightarrow>
             sorted (rev (cutoffTrace ts ?s0)))"
      unfolding tr
      using sorted_ramp [OF h(1), of a "2 * p" d "currentTime s"]
        sorted_ramp_down [OF h(1), of "2 * p" a d "currentTime s"]
      by blast
  qed
  have c3: "\<exists>s'. updateEnvelope t s = Inr s' \<and> envelopePhase s' = 1"
    if "envelopePhase s = 1" "?q \<noteq> NegInf" "ltOne ?q"
    using ramp_step [of s t] ltOne_finite [OF that(2,3)] that(1) by simp
  have c: "envelopePhase s = 1 \<longrightarrow>
        (geOne ?q \<longrightarrow>
           (\<exists>s'. updateEnvelope t s = Inr s'
              \<and> envelopePhase s' = 2
              \<and> envelopeStartCutoff s' = envelopeTargetCutoff s
              \<and> envelopeTargetCutoff s' =
                  envelopeStartCutoff s'
                  + (manualCutoff s - envelopeStartCutoff s') * (1 - envelopeSustainLevel s)
              \<and> envelopeStartTime s' = t
              \<and> envelopeDuration s' = envelopeDecayTime s))
        \<and> (\<not> geOne ?q \<longrightarrow> (\<forall>s'. updateEnvelope t s = Inr s' \<longrightarrow> envelopePhase s' = 1))
        \<and> (?q \<noteq> NegInf \<and> ltOne ?q \<longrightarrow>
             (\<exists>s'. updateEnvelope t s = Inr s' \<and> envelopePhase s' = 1))"
    using attack_done [of s t] attack_stays [of s t] c3 by blast
  have d: "envelopePhase s = 2 \<and> geOne ?q \<longrightarrow>
        (\<exists>s'. updateEnvelope t s = Inr s' \<and> envelopePhase s' = 3
           \<and> currentTime s' = t \<and> envelopeCutoff s' = envelopeTargetCutoff s
           \<and> (envelopeStartTime s \<le> t \<longrightarrow> held s'))"
    using decay_done [of s t] by blast
  have e: "held s \<and> sorted ts \<and> (\<forall>t\<in>set ts. currentTime s \<le> t) \<longrightarrow>
        cutoffTrace ts s = replicate (length ts) (envelopeCutoff s)"
    using held_trace [of s ts] by blast
  from f(1) f(2) f(3) b c d e show ?thesis
    by (intro conjI)
qed

theorem envelope_lifecycle_witness:
  "cutoffTrace [0, 1] (setEnvelopeAttack 200 2000 2 fresh) = [200, 2100]
   \<and> sorted (cutoffTrace [0, 1] (setEnvelopeAttack 200 2000 2 fresh))
   \<and> (\<exists>s2 s3. updateEnvelope 2 (setEnvelopeAttack 200 2000 2 fresh) = Inr s2
         \<and> envelopePhase s2 = 2 \<and> envelopeStartCutoff s2 = 4000
         \<and> envelopeTargetCutoff s2 = 2500
         \<and> updateEnvelope 3 s2 = Inr s3 \<and> envelopePhase s3 = 3
         \<and> envelopeCutoff s3 = 2500
         \<and> cutoffTrace [7 / 2, 4] s3 = [2500, 2500])
   \<and> (\<exists>s2. updateEnvelope 1 (setEnvelopeAttack 200 2000 0 fresh) = Inr s2
         \<and> envelopePhase s2 = 2 \<and> envelopeStartCutoff s2 = 4000)"
proof -
  let ?s1 = "setEnvelopeAttack 200 2000 2 fresh"
  let ?z1 = "setEnvelopeAttack 200 2000 0 fresh"
  have s1: "envelopePhase ?s1 = 1" "envelopeDuration ?s1 = 2" "envelopeStartTime ?s1 = 0"
    "envelopeTargetCutoff ?s1 = 4000" "manualCutoff ?s1 = 1000"
    "envelopeSustainLevel ?s1 = 1 / 2" "envelopeDecayTime ?s1 = 1 / 2" "currentTime fresh = 0"
    by (simp_all add: setEnvelopeAttack_def fresh_def)
  have z1: "envelopePhase ?z1 = 1" "envelopeDuration ?z1 = 0" "envelopeStartTime ?z1 = 0"
    "envelopeTargetCutoff ?z1 = 4000"
    by (simp_all add: setEnvelopeAttack_def fresh_def)
  have a: "cutoffTrace [0, 1] ?s1 = [200, 2100] \<and> sorted (cutoffTrace [0, 1] ?s1)"
    using envelope_lifecycle [of 200 2000 2 fresh "[0, 1]"] s1(8) by (simp add: fdiv_def)
  have "\<exists>s'. updateEnvelope 2 ?s1 = Inr s' \<and> envelopePhase s' = 2
          \<and> envelopeStartCutoff s' = 4000
          \<and> envelopeTargetCutoff s' = envelopeStartCutoff s' + (1000 - envelopeStartCutoff s') / 2
          \<and> envelopeStartTime s' = 2 \<and> envelopeDuration s' = 1 / 2"
    using envelope_lifecycle [of 0 0 0 ?s1 "[]" 2] s1 by (simp add: fdiv_def)
  then obtain s2 where s2: "updateEnvelope 2 ?s1 = Inr s2" "envelopePhase s2 = 2"
    "envelopeStartCutoff s2 = 4000" "envelopeTargetCutoff s2 = 2500"
    "envelopeStartTime s2 = 2" "envelopeDuration s2 = 1 / 2"
    by auto
  obtain s3 where s3: "updateEnvelope 3 s2 = Inr s3" "envelopePhase s3 = 3" "held s3"
    "currentTime s3 = 3" "envelopeCutoff s3 = 2500"
    using envelope_lifecycle [of 0 0 0 s2 "[]" 3] s2 by (auto simp add: fdiv_def)
  have "cutoffTrace [7 / 2, 4] s3 = [2500, 2500]"
    using envelope_lifecycle [of 0 0 0 s3 "[7 / 2, 4]"] s3 by (simp add: numeral_2_eq_2)
  moreover have "\<exists>s'. updateEnvelope 1 ?z1 = Inr s' \<and> envelopePhase s' = 2
          \<and> envelopeStartCutoff s' = 4000"
    using envelope_lifecycle [of 0 0 0 ?z1 "[]" 1] z1 by (auto simp add: fdiv_def)
  ultimately show ?thesis using a s2 s3 by blast
qed

theorem attack_falls_counterexample:
  "cutoffTrace [1 / 4, 1 / 2] (setEnvelopeAttack 1000 100 1 fresh) = [800, 600]
   \<and> \<not> sorted (cutoffTrace [1 / 4, 1 / 2] (setEnvelopeAttack 1000 100 1 fresh))
   \<and> cutoffTrace [1, 2] (setEnvelopeAttack 200 2000 (- 1) fresh) = [- 3600, - 7400]
   \<and> \<not> sorted (cutoffTrace [1, 2] (setEnvelopeAttack 200 2000 (- 1) fresh))"
proof -
  let ?s = "setEnvelopeAttack 1000 100 1 fresh"
  let ?r = "setEnvelopeAttack 200 2000 (- 1) fresh"
  have s: "envelopePhase ?s = 1" "envelopeStartTime ?s = 0" "envelopeDuration ?s = 1"
    "envelopeStartCutoff ?s = 1000" "envelopeTargetCutoff ?s = 200"
    by (simp_all add: setEnvelopeAttack_def fresh_def)
  have r: "envelopePhase ?r = 1" "envelopeStartTime ?r = 0" "envelopeDuration ?r = - 1"
    "envelopeStartCutoff ?r = 200" "envelopeTargetCutoff ?r = 4000"
    by (simp_all add: setEnvelopeAttack_def fresh_def)
  have 1: "cutoffTrace [1 / 4, 1 / 2] ?s = [800, 600]"
    by (subst attack_trace) (simp_all add: s fdiv_def)
  have 2: "cutoffTrace [1, 2] ?r = [- 3600, - 7400]"
    by (subst attack_trace) (simp_all add: r fdiv_def)
  show ?thesis unfolding 1 2 by simp
qed

subsection \<open>Idle and release\<close>




text \<open>
  C1. \<^verbatim>\<open>setEnvelopeRelease\<close> stores the start, target, start time and duration of a
  release ramp and sets the phase to 0; \<^verbatim>\<open>updateEnvelope\<close> returns at once when the phase
  is 0, so no advance after a release interpolates: the envelope cutoff keeps the value it
  had at the trigger. After an attack from 200 toward 4000 over 2 seconds advanced to
  time 1 (cutoff 2100), a release toward 500 over 2 seconds advanced to time 2 leaves the
  cutoff at 2100, where the ramp would be at 1300.
\<close>

theorem release_never_interpolates:
  "updateEnvelope t (setEnvelopeRelease target releaseTime s)
     = Inr ((setEnvelopeRelease target releaseTime s)\<lparr>currentTime := t\<rparr>)
   \<and> envelopeCutoff ((setEnvelopeRelease target releaseTime s)\<lparr>currentTime := t\<rparr>)
       = envelopeCutoff s
   \<and> (\<exists>s'. run [SetEnvelopeAttack 200 2000 2, UpdateEnvelope 1,
                   SetEnvelopeRelease 500 2, UpdateEnvelope 2] fresh = Inr s'
          \<and> envelopeCutoff s' = 2100 \<and> envelopeStartCutoff s' = 2100
          \<and> envelopeTargetCutoff s' = 500 \<and> envelopeStartTime s' = 1
          \<and> envelopeDuration s' = 2 \<and> envelopePhase s' = 0 \<and> currentTime s' = 2)"
  by (simp add: updateEnvelope_def Let_def setEnvelopeRelease_def setEnvelopeAttack_def
      fdiv_def fresh_def)

subsection \<open>Division by the phase duration\<close>

text \<open>
  C10. \<^verbatim>\<open>updateEnvelope\<close> divides by \<^verbatim>\<open>envelopeDuration\<close> without a guard. When the decay
  time and the duration of the current non-idle phase are positive, the division is
  defined and the call returns a state with the same property; this holds along every
  sequence of calls whose attack, release and decay times are positive. After
  \<^verbatim>\<open>setEnvelopeAttack\<close> with attack time 0, an advance at the trigger time divides 0 by 0.
\<close>

theorem progress_division:
  "(positiveDurations s \<longrightarrow>
      (envelopePhase s \<noteq> 0 \<longrightarrow>
         fdiv (t - envelopeStartTime s) (envelopeDuration s)
           = Finite ((t - envelopeStartTime s) / envelopeDuration s))
      \<and> (\<exists>s'. updateEnvelope t s = Inr s' \<and> positiveDurations s'))
   \<and> (list_all positiveCall cs \<longrightarrow>
        run cs fresh \<noteq> Inl NonFiniteCutoff
        \<and> (\<forall>s'. run cs fresh = Inr s' \<longrightarrow> positiveDurations s'))
   \<and> fdiv (currentTime s0 - envelopeStartTime (setEnvelopeAttack a p 0 s0))
          (envelopeDuration (setEnvelopeAttack a p 0 s0)) = NaN
   \<and> updateEnvelope (currentTime s0) (setEnvelopeAttack a p 0 s0) = Inl NonFiniteCutoff"
proof -
  have 1: "positiveDurations s \<longrightarrow>
      (envelopePhase s \<noteq> 0 \<longrightarrow>
         fdiv (t - envelopeStartTime s) (envelopeDuration s)
           = Finite ((t - envelopeStartTime s) / envelopeDuration s))
      \<and> (\<exists>s'. updateEnvelope t s = Inr s' \<and> positiveDurations s')"
    using updateEnvelope_positive [of s t] by (auto simp add: positiveDurations_def fdiv_def)
  have f: "positiveDurations fresh" by (simp add: positiveDurations_def fresh_def)
  have 2: "list_all positiveCall cs \<longrightarrow>
        run cs fresh \<noteq> Inl NonFiniteCutoff
        \<and> (\<forall>s'. run cs fresh = Inr s' \<longrightarrow> positiveDurations s')"
    using positive_run [OF f, of cs] by blast
  have 3: "fdiv (currentTime s0 - envelopeStartTime (setEnvelopeAttack a p 0 s0))
          (envelopeDuration (setEnvelopeAttack a p 0 s0)) = NaN"
    by (simp add: setEnvelopeAttack_def fdiv_def)
  have 4: "updateEnvelope (currentTime s0) (setEnvelopeAttack a p 0 s0) = Inl NonFiniteCutoff"
    by (simp add: updateEnvelope_def Let_def setEnvelopeAttack_def fdiv_def)
  from 1 2 3 4 show ?thesis by (intro conjI)
qed

theorem progress_division_witness:
  "positiveDurations (setEnvelopeAttack 200 2000 2 fresh)
   \<and> envelopePhase (setEnvelopeAttack 200 2000 2 fresh) \<noteq> 0
   \<and> fdiv (1 - envelopeStartTime (setEnvelopeAttack 200 2000 2 fresh))
          (envelopeDuration (setEnvelopeAttack 200 2000 2 fresh)) = Finite (1 / 2)
   \<and> (\<exists>s'. updateEnvelope 1 (setEnvelopeAttack 200 2000 2 fresh) = Inr s'
          \<and> positiveDurations s')
   \<and> list_all positiveCall [SetEnvelopeAttack 200 2000 2, UpdateEnvelope 1, UpdateEnvelope 3]
   \<and> run [SetEnvelopeAttack 200 2000 2, UpdateEnvelope 1, UpdateEnvelope 3] fresh
       \<noteq> Inl NonFiniteCutoff"
proof -
  let ?s = "setEnvelopeAttack 200 2000 2 fresh"
  let ?cs = "[SetEnvelopeAttack 200 2000 2, UpdateEnvelope 1, UpdateEnvelope 3]"
  have p: "positiveDurations ?s" "envelopePhase ?s \<noteq> 0" "envelopeStartTime ?s = 0"
    "envelopeDuration ?s = 2"
    by (simp_all add: positiveDurations_def setEnvelopeAttack_def fresh_def)
  have l: "list_all positiveCall ?cs" by simp
  from progress_division [of ?s 1 ?cs] p l show ?thesis by simp
qed

subsection \<open>Coefficient mapper\<close>

lemma ufc_coefficients:
  "acr (updateFilterCoefficients s) =
     - 3.9364 * (clampedFc (cutoff s) * clampedFc (cutoff s))
     + 1.8409 * clampedFc (cutoff s) + 0.9968"
  "tune (updateFilterCoefficients s) =
     (1 - exp (- ((2 * PI) * (clampedFc (cutoff s) * 0.5)
        * (1.8730 * (clampedFc (cutoff s) * clampedFc (cutoff s) * clampedFc (cutoff s))
           + 0.4955 * (clampedFc (cutoff s) * clampedFc (cutoff s))
           - 0.6490 * clampedFc (cutoff s) + 0.9988)))) / thermal"
  "resQuad (updateFilterCoefficients s) = 4 * resonance s * acr (updateFilterCoefficients s)"
  by (simp_all add: updateFilterCoefficients_def Let_def)

lemma ufc_depends:
  assumes "cutoff s1 = cutoff s2" "resonance s1 = resonance s2"
  shows "tune (updateFilterCoefficients s1) = tune (updateFilterCoefficients s2)"
    "acr (updateFilterCoefficients s1) = acr (updateFilterCoefficients s2)"
    "resQuad (updateFilterCoefficients s1) = resQuad (updateFilterCoefficients s2)"
  using assms by (simp_all add: ufc_coefficients)

lemma ufc_idem:
  "updateFilterCoefficients (updateFilterCoefficients s) = updateFilterCoefficients s"
  by (simp add: updateFilterCoefficients_def Let_def)

lemma ufc_current:
  "coefficientsCurrent s \<Longrightarrow> updateFilterCoefficients s = s"
  by (simp add: coefficientsCurrent_def updateFilterCoefficients_def Let_def)

lemma current_ufc: "coefficientsCurrent (updateFilterCoefficients s)"
  by (simp add: coefficientsCurrent_def ufc_idem)

lemma current_cong:
  assumes "coefficientsCurrent s" "cutoff s' = cutoff s" "resonance s' = resonance s"
    "tune s' = tune s" "acr s' = acr s" "resQuad s' = resQuad s"
  shows "coefficientsCurrent s'"
  using assms ufc_depends [of s' s] by (simp add: coefficientsCurrent_def)

lemma current_ladderFrame:
  assumes "ladderFrame s s'" "coefficientsCurrent s"
  shows "coefficientsCurrent s'"
  using assms(2) ladderFrame_fields [OF assms(1)] by (intro current_cong [of s s']) simp_all

lemma current_filter_block: "coefficientsCurrent (filter_block s)"
  using filter_block_frame [of s] current_ufc by (rule current_ladderFrame)

lemma current_applyProgress: "coefficientsCurrent (applyProgress p s)"
  by (simp add: applyProgress_def Let_def current_ufc)

lemma current_init: "coefficientsCurrent (init s)"
proof -
  let ?s3 = "setResonance 0.1 (setCutoff 1000.0
      (s\<lparr> stage := replicate 4 0, delay := replicate 6 0, stageTanh := replicate 3 0 \<rparr>))"
  have "coefficientsCurrent ?s3" by (simp add: setResonance_def current_ufc)
  then show ?thesis
    by (rule current_cong) (simp_all add: init_def Let_def)
qed

lemma coefficients_exec:
  assumes "exec c s = Inr s'"
  shows "tune s' = tune s \<and> acr s' = acr s \<and> resQuad s' = resQuad s \<or> coefficientsCurrent s'"
proof (cases c)
  case (SetCutoff x)
  then show ?thesis using assms by (auto simp add: setCutoff_def Let_def current_ufc)
next
  case (SetResonance x)
  then show ?thesis using assms by (auto simp add: setResonance_def current_ufc)
next
  case (SetEnvelopeActive x)
  then show ?thesis using assms by (auto simp add: setEnvelopeActive_def Let_def current_ufc)
next
  case (SetEnvelopeCutoff x)
  then show ?thesis using assms by (auto simp add: setEnvelopeCutoff_def Let_def current_ufc)
next
  case (UpdateEnvelope t)
  then have "updateEnvelope t s = Inr s'" using assms by simp
  from updateEnvelope_shape [OF this] show ?thesis
    by (auto simp add: current_applyProgress)
next
  case Init
  then show ?thesis using assms by (auto simp add: current_init)
next
  case Filter
  then show ?thesis using assms by (auto simp add: current_filter_block)
next
  case (WriteInput i x)
  then show ?thesis using assms by (auto split: if_splits)
qed (use assms in \<open>auto simp add: setEnvelopeDecayTime_def setEnvelopeSustainLevel_def
      setEnvelopeAttack_def setEnvelopeRelease_def\<close>)

lemma live_exec:
  assumes "exec c s = Inr s'" "c \<noteq> Filter"
  shows "cutoff s' = cutoff s \<and> resonance s' = resonance s"
proof (cases c)
  case (UpdateEnvelope t)
  then show ?thesis using updateEnvelope_keeps(7,8) [of t s s'] assms by simp
next
  case Init
  then show ?thesis using assms by (auto simp add: init_def Let_def)
next
  case (WriteInput i x)
  then show ?thesis using assms by (auto split: if_splits)
qed (use assms in \<open>auto simp add: setEnvelopeActive_def setEnvelopeCutoff_def
      setEnvelopeDecayTime_def setEnvelopeSustainLevel_def
      setEnvelopeAttack_def setEnvelopeRelease_def Let_def\<close>)

lemma current_exec:
  assumes "coefficientsCurrent s" "exec c s = Inr s'"
  shows "coefficientsCurrent s'"
proof (cases "c = Filter")
  case True
  then show ?thesis using assms(2) by (auto simp add: current_filter_block)
next
  case False
  from coefficients_exec [OF assms(2)] live_exec [OF assms(2) False] assms(1)
  show ?thesis by (auto intro: current_cong)
qed

lemma unchanged_exec:
  assumes "coefficientsCurrent s" "exec c s = Inr s'" "c \<noteq> Filter"
  shows "tune s' = tune s \<and> acr s' = acr s \<and> resQuad s' = resQuad s"
proof -
  have cur: "coefficientsCurrent s'" using assms(1,2) by (rule current_exec)
  have live: "cutoff s' = cutoff s" "resonance s' = resonance s"
    using live_exec [OF assms(2,3)] by simp_all
  show ?thesis
    using cur assms(1) ufc_depends [OF live] by (simp add: coefficientsCurrent_def)
qed

text \<open>
  C4. The normalised frequency that the coefficient mapper uses is at most 0.45 for every
  cutoff, and is 0.45 for every cutoff at or above 0.45 times the sample rate; \<^verbatim>\<open>tune\<close>,
  \<^verbatim>\<open>acr\<close> and \<^verbatim>\<open>resQuad\<close> are computed from that clamped value, so the coefficients for a
  cutoff are those for the cutoff limited to 0.45 times the sample rate. Every exported
  call either leaves the three coefficients as they were or leaves them equal to the
  values so computed.
\<close>

theorem cutoff_clamp:
  "clampedFc c \<le> 0.45
   \<and> (0.45 * SAMPLE_RATE \<le> c \<longrightarrow> clampedFc c = 0.45)
   \<and> acr (updateFilterCoefficients s) =
       - 3.9364 * (clampedFc (cutoff s) * clampedFc (cutoff s))
       + 1.8409 * clampedFc (cutoff s) + 0.9968
   \<and> tune (updateFilterCoefficients s) =
       (1 - exp (- ((2 * PI) * (clampedFc (cutoff s) * 0.5)
          * (1.8730 * (clampedFc (cutoff s) * clampedFc (cutoff s) * clampedFc (cutoff s))
             + 0.4955 * (clampedFc (cutoff s) * clampedFc (cutoff s))
             - 0.6490 * clampedFc (cutoff s) + 0.9988)))) / thermal
   \<and> resQuad (updateFilterCoefficients s) = 4 * resonance s * acr (updateFilterCoefficients s)
   \<and> (tune (updateFilterCoefficients (s\<lparr>cutoff := min (cutoff s) (0.45 * SAMPLE_RATE)\<rparr>))
         = tune (updateFilterCoefficients s)
       \<and> acr (updateFilterCoefficients (s\<lparr>cutoff := min (cutoff s) (0.45 * SAMPLE_RATE)\<rparr>))
         = acr (updateFilterCoefficients s)
       \<and> resQuad (updateFilterCoefficients (s\<lparr>cutoff := min (cutoff s) (0.45 * SAMPLE_RATE)\<rparr>))
         = resQuad (updateFilterCoefficients s))
   \<and> (exec call s = Inr s' \<longrightarrow>
        tune s' = tune s \<and> acr s' = acr s \<and> resQuad s' = resQuad s
        \<or> coefficientsCurrent s')"
proof -
  have 1: "clampedFc c \<le> 0.45" unfolding clampedFc_def by (rule min.cobounded2)
  have 2: "0.45 * SAMPLE_RATE \<le> c \<longrightarrow> clampedFc c = 0.45"
    by (simp add: clampedFc_def SAMPLE_RATE_def min_def)
  have cl: "clampedFc m = clampedFc (cutoff s)"
    if "m = min (cutoff s) (0.45 * SAMPLE_RATE)" for m
    using that by (simp add: clampedFc_def SAMPLE_RATE_def min_def)
  have 3: "tune (updateFilterCoefficients (s\<lparr>cutoff := m\<rparr>)) = tune (updateFilterCoefficients s)
       \<and> acr (updateFilterCoefficients (s\<lparr>cutoff := m\<rparr>)) = acr (updateFilterCoefficients s)
       \<and> resQuad (updateFilterCoefficients (s\<lparr>cutoff := m\<rparr>))
         = resQuad (updateFilterCoefficients s)"
    if "m = min (cutoff s) (0.45 * SAMPLE_RATE)" for m
    using cl [OF that] by (simp add: ufc_coefficients)
  have 4: "exec call s = Inr s' \<longrightarrow>
        tune s' = tune s \<and> acr s' = acr s \<and> resQuad s' = resQuad s
        \<or> coefficientsCurrent s'"
    using coefficients_exec [of call s s'] by blast
  from 1 2 ufc_coefficients [of s] 3 [OF refl] 4 show ?thesis by blast
qed

theorem cutoff_clamp_witness:
  "0.45 * SAMPLE_RATE \<le> 30000 \<and> clampedFc 30000 = 0.45
   \<and> exec (SetCutoff 30000) fresh = Inr (setCutoff 30000 fresh)
   \<and> coefficientsCurrent (setCutoff 30000 fresh)"
proof -
  have a: "0.45 * SAMPLE_RATE \<le> 30000" by (simp add: SAMPLE_RATE_def)
  have e: "exec (SetCutoff 30000) fresh = Inr (setCutoff 30000 fresh)" by simp
  have n: "acr (setCutoff 30000 fresh) \<noteq> acr fresh"
    by (simp add: setCutoff_def Let_def updateFilterCoefficients_def clampedFc_def
        SAMPLE_RATE_def fresh_def)
  from cutoff_clamp [of 30000 fresh "SetCutoff 30000" "setCutoff 30000 fresh"] a e n
  show ?thesis by simp
qed

text \<open>
  C9 (as amended). The three coefficients that a recomputation gives depend on the live
  cutoff and resonance only. Once the coefficients are current, every exported call other
  than \<^verbatim>\<open>filter\<close> leaves the live cutoff and resonance, and with them \<^verbatim>\<open>tune\<close>, \<^verbatim>\<open>acr\<close>
  and \<^verbatim>\<open>resQuad\<close>, unchanged, and the coefficients stay current; they are current after
  \<^verbatim>\<open>init\<close> and after \<^verbatim>\<open>filter\<close>.
\<close>

theorem coefficients_follow_live_values:
  "(cutoff s1 = cutoff s2 \<and> resonance s1 = resonance s2 \<longrightarrow>
      tune (updateFilterCoefficients s1) = tune (updateFilterCoefficients s2)
      \<and> acr (updateFilterCoefficients s1) = acr (updateFilterCoefficients s2)
      \<and> resQuad (updateFilterCoefficients s1) = resQuad (updateFilterCoefficients s2))
   \<and> (coefficientsCurrent s \<and> c \<noteq> Filter \<and> exec c s = Inr s' \<longrightarrow>
        tune s' = tune s \<and> acr s' = acr s \<and> resQuad s' = resQuad s
        \<and> cutoff s' = cutoff s \<and> resonance s' = resonance s
        \<and> coefficientsCurrent s')
   \<and> coefficientsCurrent (init s)
   \<and> coefficientsCurrent (filter_block s)"
proof -
  have 1: "cutoff s1 = cutoff s2 \<and> resonance s1 = resonance s2 \<longrightarrow>
      tune (updateFilterCoefficients s1) = tune (updateFilterCoefficients s2)
      \<and> acr (updateFilterCoefficients s1) = acr (updateFilterCoefficients s2)
      \<and> resQuad (updateFilterCoefficients s1) = resQuad (updateFilterCoefficients s2)"
    using ufc_depends [of s1 s2] by blast
  have 2: "coefficientsCurrent s \<and> c \<noteq> Filter \<and> exec c s = Inr s' \<longrightarrow>
        tune s' = tune s \<and> acr s' = acr s \<and> resQuad s' = resQuad s
        \<and> cutoff s' = cutoff s \<and> resonance s' = resonance s
        \<and> coefficientsCurrent s'"
    using unchanged_exec [of s c s'] live_exec [of c s s'] current_exec [of s c s'] by blast
  from 1 2 current_init [of s] current_filter_block [of s] show ?thesis by (intro conjI)
qed

theorem coefficients_follow_live_values_witness:
  "coefficientsCurrent (init fresh)
   \<and> exec (SetCutoff 5000) (init fresh) = Inr (setCutoff 5000 (init fresh))
   \<and> targetCutoff (setCutoff 5000 (init fresh)) = 5000
   \<and> tune (setCutoff 5000 (init fresh)) = tune (init fresh)
   \<and> acr (setCutoff 5000 (init fresh)) = acr (init fresh)
   \<and> resQuad (setCutoff 5000 (init fresh)) = resQuad (init fresh)
   \<and> tune (updateFilterCoefficients (init fresh)) = tune (updateFilterCoefficients fresh)"
proof -
  have a: "coefficientsCurrent (init fresh)"
    using coefficients_follow_live_values [of fresh fresh fresh Init fresh] by simp
  have e: "exec (SetCutoff 5000) (init fresh) = Inr (setCutoff 5000 (init fresh))" by simp
  have t: "targetCutoff (setCutoff 5000 (init fresh)) = 5000"
    by (simp add: setCutoff_def init_def Let_def)
  have l: "cutoff (init fresh) = cutoff fresh" "resonance (init fresh) = resonance fresh"
    by (simp_all add: init_def Let_def)
  from coefficients_follow_live_values
         [of "init fresh" fresh "init fresh" "SetCutoff 5000" "setCutoff 5000 (init fresh)"]
       a e t l
  show ?thesis by simp
qed

theorem setter_recomputes_counterexample:
  "acr (setResonance (1 / 2) fresh) \<noteq> acr fresh
   \<and> acr (setCutoff 500 fresh) \<noteq> acr fresh
   \<and> resQuad (setCutoff 500 fresh) \<noteq> resQuad fresh"
  by (simp add: setResonance_def setCutoff_def Let_def updateFilterCoefficients_def
      clampedFc_def SAMPLE_RATE_def fresh_def)

subsection \<open>Saturator\<close>

lemma enhanced_tanh_zero: "enhanced_tanh 0 = 0"
  by (simp add: enhanced_tanh_def)

lemma abs_sum_bound:
  fixes p q r u y :: real
  assumes "\<bar>p\<bar> \<le> 203 / 200" "\<bar>q\<bar> \<le> 1" "\<bar>r\<bar> \<le> y" "\<bar>u\<bar> \<le> y"
  shows "\<bar>p + 1 / 125 * q + 3 / 500 * r + 1 / 250 * u\<bar> \<le> 1023 / 1000 + y / 100"
  using assms by linarith

lemma enhanced_tanh_bound: "\<bar>enhanced_tanh x\<bar> \<le> 1023 / 1000 + \<bar>x\<bar> / 100"
proof -
  define a where "a = \<bar>x\<bar>"
  define L where "L = a / (1.0 + a)"
  define F where "F = 1.0 / (1.0 + 2.0 * L)"
  define asym :: real where "asym = (if x > 0 then 1.0 else 0.98)"
  have e: "enhanced_tanh x =
      asym * tanh x * (1.0 + 0.015 * L * F) + 0.008 * x * L * F / (1.0 + a)
      + 0.006 * x * L * L * F + 0.004 * x * L * F"
    unfolding enhanced_tanh_def Let_def a_def L_def F_def asym_def by (rule refl)
  have a0: "0 \<le> a" by (simp add: a_def)
  have L0: "0 \<le> L" using a0 by (simp add: L_def)
  have L1: "L \<le> 1" using a0 by (simp add: L_def)
  have F0: "0 \<le> F" using L0 by (simp add: F_def)
  have F1: "F \<le> 1" using L0 by (simp add: F_def)
  define M where "M = L * F"
  define N where "N = L * M"
  have M0: "0 \<le> M" and M1: "M \<le> 1"
    using L0 L1 F0 F1 by (simp_all add: M_def mult_le_one)
  have N0: "0 \<le> N" and N1: "N \<le> 1"
    using L0 L1 M0 M1 by (simp_all add: N_def mult_le_one)
  have aM: "\<bar>M\<bar> = M" and aN: "\<bar>N\<bar> = N" and aa: "\<bar>1 + a\<bar> = 1 + a"
    using M0 N0 a0 by simp_all
  have xa: "\<bar>x\<bar> / (1 + a) = L" by (simp add: L_def a_def)
  have t: "\<bar>tanh x\<bar> \<le> 1"
    using tanh_real_lt_1 [of x] tanh_real_gt_neg1 [of x] by (simp add: abs_le_iff less_imp_le)
  have as: "\<bar>asym\<bar> \<le> 1" by (simp add: asym_def)
  have at: "\<bar>asym * tanh x\<bar> \<le> 1"
    using as t by (simp add: abs_mult mult_le_one)
  have hb: "\<bar>1 + 3 / 200 * M\<bar> \<le> 203 / 200"
    using M0 M1 by linarith
  have "\<bar>asym * tanh x\<bar> * \<bar>1 + 3 / 200 * M\<bar> \<le> 1 * (203 / 200)"
    using at hb by (intro mult_mono) simp_all
  then have T1: "\<bar>asym * tanh x * (1 + 3 / 200 * M)\<bar> \<le> 203 / 200"
    by (simp only: abs_mult mult_1)
  have "\<bar>x * M / (1 + a)\<bar> = \<bar>x\<bar> / (1 + a) * M"
    by (simp only: abs_mult abs_divide aM aa) simp
  then have "\<bar>x * M / (1 + a)\<bar> = N"
    by (simp only: xa N_def)
  then have T2: "\<bar>x * M / (1 + a)\<bar> \<le> 1"
    using N1 by simp
  have "\<bar>x * N\<bar> = \<bar>x\<bar> * N"
    by (simp only: abs_mult aN)
  also have "\<dots> \<le> \<bar>x\<bar> * 1"
    using N1 by (intro mult_left_mono) simp_all
  finally have T3: "\<bar>x * N\<bar> \<le> \<bar>x\<bar>" by simp
  have "\<bar>x * M\<bar> = \<bar>x\<bar> * M"
    by (simp only: abs_mult aM)
  also have "\<dots> \<le> \<bar>x\<bar> * 1"
    using M1 by (intro mult_left_mono) simp_all
  finally have T4: "\<bar>x * M\<bar> \<le> \<bar>x\<bar>" by simp
  have e': "enhanced_tanh x =
      asym * tanh x * (1 + 3 / 200 * M) + 1 / 125 * (x * M / (1 + a))
      + 3 / 500 * (x * N) + 1 / 250 * (x * M)"
    unfolding e N_def M_def by (simp add: mult.assoc)
  show ?thesis unfolding e' using T1 T2 T3 T4 by (rule abs_sum_bound)
qed

text \<open>
  C7. \<^verbatim>\<open>enhanced_tanh\<close> is a function of its argument alone. It maps 0 to 0, its two
  divisors are never zero, and its value is bounded by \<open>1.023 + 0.01 * \<bar>x\<bar>\<close>, so an
  argument within the range of the finite floats has a value within that range.
\<close>

theorem saturate_finite:
  "enhanced_tanh 0 = 0
   \<and> 1 + \<bar>x\<bar> \<noteq> 0
   \<and> 1 + 2 * (\<bar>x\<bar> / (1 + \<bar>x\<bar>)) \<noteq> 0
   \<and> \<bar>enhanced_tanh x\<bar> \<le> 1.023 + 0.01 * \<bar>x\<bar>
   \<and> (\<bar>x\<bar> \<le> FLT_MAX \<longrightarrow> \<bar>enhanced_tanh x\<bar> \<le> FLT_MAX)"
proof -
  have 2: "1 + \<bar>x\<bar> \<noteq> 0" by simp
  have "0 \<le> \<bar>x\<bar> / (1 + \<bar>x\<bar>)" by simp
  then have 3: "1 + 2 * (\<bar>x\<bar> / (1 + \<bar>x\<bar>)) \<noteq> 0" by linarith
  have m: "2 \<le> FLT_MAX" by (simp add: FLT_MAX_def)
  have 4: "\<bar>enhanced_tanh x\<bar> \<le> 1.023 + 0.01 * \<bar>x\<bar>"
    using enhanced_tanh_bound [of x] by simp
  have 5: "\<bar>x\<bar> \<le> FLT_MAX \<longrightarrow> \<bar>enhanced_tanh x\<bar> \<le> FLT_MAX"
    using enhanced_tanh_bound [of x] m by linarith
  from enhanced_tanh_zero 2 3 4 5 show ?thesis by (intro conjI)
qed

theorem saturate_finite_witness:
  "\<bar>1 / 2\<bar> \<le> FLT_MAX \<and> \<bar>enhanced_tanh (1 / 2)\<bar> \<le> FLT_MAX
   \<and> \<bar>enhanced_tanh (1 / 2)\<bar> \<le> 1.028"
proof -
  have h: "\<bar>1 / 2 :: real\<bar> \<le> FLT_MAX" by (simp add: FLT_MAX_def)
  from saturate_finite [of "1 / 2"] h show ?thesis by simp
qed

subsection \<open>Ladder filter core\<close>

lemma list3: "length xs = 3 \<Longrightarrow> \<exists>a b c. xs = [a, b, c]"
  by (auto simp add: eval_nat_numeral length_Suc_conv)

lemma list4: "length xs = 4 \<Longrightarrow> \<exists>a b c d. xs = [a, b, c, d]"
  by (auto simp add: eval_nat_numeral length_Suc_conv)

lemma list6: "length xs = 6 \<Longrightarrow> \<exists>a b c d e f. xs = [a, b, c, d, e, f]"
  by (auto simp add: eval_nat_numeral length_Suc_conv)

lemma substep_spec:
  assumes "wf s"
  shows "(delay (ladderSubstep d s), stageTanh (ladderSubstep d s))
           = spec_substep (tune s) (resQuad s) d (delay s, stageTanh s)"
    and "stage (ladderSubstep d s) = take 4 (delay (ladderSubstep d s))"
proof -
  obtain a0 a1 a2 a3 a4 a5 where dl: "delay s = [a0, a1, a2, a3, a4, a5]"
    using assms list6 [of "delay s"] by (auto simp add: wf_def)
  obtain b0 b1 b2 where st: "stageTanh s = [b0, b1, b2]"
    using assms list3 [of "stageTanh s"] by (auto simp add: wf_def)
  obtain c0 c1 c2 c3 where sg: "stage s = [c0, c1, c2, c3]"
    using assms list4 [of "stage s"] by (auto simp add: wf_def)
  show "(delay (ladderSubstep d s), stageTanh (ladderSubstep d s))
           = spec_substep (tune s) (resQuad s) d (delay s, stageTanh s)"
    by (simp add: ladderSubstep_def spec_substep_def Let_def dl st sg)
  show "stage (ladderSubstep d s) = take 4 (delay (ladderSubstep d s))"
    by (simp add: ladderSubstep_def Let_def dl st sg)
qed

lemma oversample_twice:
  "oversampleLoop 0 d s = ladderSubstep d (ladderSubstep d s)"
  by (simp add: oversampleLoop.simps [of 0] oversampleLoop.simps [of "Suc 0"]
      oversampleLoop.simps [of "Suc (Suc 0)"])

lemma substep_keeps [simp]:
  "dcBlockInput (ladderSubstep d s) = dcBlockInput s"
  "dcBlockOutput (ladderSubstep d s) = dcBlockOutput s"
  "outputBuffer (ladderSubstep d s) = outputBuffer s"
  "inputBuffer (ladderSubstep d s) = inputBuffer s"
  "tune (ladderSubstep d s) = tune s"
  "resQuad (ladderSubstep d s) = resQuad s"
  by (simp_all add: ladderSubstep_def Let_def)

lemma processSample_unfold:
  "processSample i s =
    (let x = inputBuffer s ! i;
         d = x - dcBlockInput s + dcBlockCoeff * dcBlockOutput s;
         s3 = ladderSubstep d (ladderSubstep d (s\<lparr>dcBlockInput := x, dcBlockOutput := d\<rparr>))
     in s3\<lparr>outputBuffer := (outputBuffer s3)[i := delay s3 ! 5]\<rparr>)"
  by (simp add: processSample_def oversample_twice Let_def)

lemma processSample_keeps [simp]:
  "inputBuffer (processSample i s) = inputBuffer s"
  "tune (processSample i s) = tune s"
  "resQuad (processSample i s) = resQuad s"
  "dcBlockInput (processSample i s) = inputBuffer s ! i"
  "dcBlockOutput (processSample i s)
     = inputBuffer s ! i - dcBlockInput s + dcBlockCoeff * dcBlockOutput s"
  "outputBuffer (processSample i s) = (outputBuffer s)[i := delay (processSample i s) ! 5]"
  by (simp_all add: processSample_unfold Let_def)

lemma sample_spec:
  assumes "wf s" "i < WEBEAUDIO_FRAME_SIZE"
  shows "spec_sample (tune s) (resQuad s) (inputBuffer s ! i) (ladderOf s)
           = (outputBuffer (processSample i s) ! i, ladderOf (processSample i s))"
    and "outputBuffer (processSample i s) ! i = delay (processSample i s) ! 5"
proof -
  let ?x = "inputBuffer s ! i"
  let ?d = "?x - dcBlockInput s + dcBlockCoeff * dcBlockOutput s"
  let ?s2 = "s\<lparr>dcBlockInput := ?x, dcBlockOutput := ?d\<rparr>"
  let ?s3 = "ladderSubstep ?d ?s2"
  let ?s4 = "ladderSubstep ?d ?s3"
  have w2: "wf ?s2" using assms(1) by (simp add: wf_def)
  then have w3: "wf ?s3" by (rule wf_substep)
  have l3: "(delay ?s3, stageTanh ?s3) = spec_substep (tune s) (resQuad s) ?d (delay s, stageTanh s)"
    using substep_spec(1) [OF w2, of ?d] by simp
  have l4: "(delay ?s4, stageTanh ?s4)
              = spec_substep (tune s) (resQuad s) ?d (delay ?s3, stageTanh ?s3)"
    using substep_spec(1) [OF w3, of ?d] by simp
  have len: "i < length (outputBuffer s)"
    using assms by (simp add: wf_def WEBEAUDIO_FRAME_SIZE_def)
  have d: "delay (processSample i s) = delay ?s4" "stageTanh (processSample i s) = stageTanh ?s4"
    by (simp_all add: processSample_unfold Let_def)
  show out: "outputBuffer (processSample i s) ! i = delay (processSample i s) ! 5"
    using len by simp
  have "spec_sample (tune s) (resQuad s) ?x (ladderOf s)
          = (fst (delay ?s4, stageTanh ?s4) ! 5, ?x, ?d, (delay ?s4, stageTanh ?s4))"
    unfolding l4 l3 by (simp add: spec_sample_def ladderOf_def Let_def)
  then show "spec_sample (tune s) (resQuad s) ?x (ladderOf s)
           = (outputBuffer (processSample i s) ! i, ladderOf (processSample i s))"
    unfolding out by (simp add: ladderOf_def d)
qed

lemma sampleLoop_output_before:
  "j < i \<Longrightarrow> outputBuffer (sampleLoop i s) ! j = outputBuffer s ! j"
proof (induction i s rule: sampleLoop.induct)
  case (1 i s)
  show ?case
  proof (cases "i < WEBEAUDIO_FRAME_SIZE")
    case True
    have "outputBuffer (sampleLoop (i + 1) (processSample i s)) ! j
            = outputBuffer (processSample i s) ! j"
      using "1.IH" [OF True] "1.prems" by simp
    also have "\<dots> = outputBuffer s ! j"
      using "1.prems" by simp
    finally show ?thesis using True by (subst sampleLoop.simps) simp
  next
    case False
    then show ?thesis by (subst sampleLoop.simps) simp
  qed
qed

lemma sampleLoop_spec:
  "wf s \<Longrightarrow> i \<le> WEBEAUDIO_FRAME_SIZE \<Longrightarrow>
     spec_block (tune s) (resQuad s) (drop i (inputBuffer s)) (ladderOf s)
       = (drop i (outputBuffer (sampleLoop i s)), ladderOf (sampleLoop i s))"
proof (induction i s rule: sampleLoop.induct)
  case (1 i s)
  show ?case
  proof (cases "i < WEBEAUDIO_FRAME_SIZE")
    case True
    let ?s' = "processSample i s"
    let ?r = "sampleLoop (i + 1) ?s'"
    have w': "wf ?s'" using "1.prems"(1) by (rule wf_processSample)
    have wr: "wf ?r" using w' by (rule wf_sampleLoop)
    have unf: "sampleLoop i s = ?r" using True by (subst sampleLoop.simps) simp
    have ih: "spec_block (tune s) (resQuad s) (drop (Suc i) (inputBuffer s)) (ladderOf ?s')
                = (drop (Suc i) (outputBuffer ?r), ladderOf ?r)"
      using "1.IH" [OF True w'] True by simp
    have li: "i < length (inputBuffer s)" and lo: "i < length (outputBuffer ?r)"
      using "1.prems"(1) wr True by (simp_all add: wf_def WEBEAUDIO_FRAME_SIZE_def)
    have di: "drop i (inputBuffer s) = inputBuffer s ! i # drop (Suc i) (inputBuffer s)"
      using li by (simp add: Cons_nth_drop_Suc)
    have "outputBuffer ?r ! i = outputBuffer ?s' ! i"
      by (rule sampleLoop_output_before) simp
    then have do: "drop i (outputBuffer ?r) = outputBuffer ?s' ! i # drop (Suc i) (outputBuffer ?r)"
      using lo by (simp add: Cons_nth_drop_Suc [symmetric])
    show ?thesis
      unfolding unf di do
      by (simp add: sample_spec(1) [OF "1.prems"(1) True] ih Let_def)
  next
    case False
    then have i: "i = WEBEAUDIO_FRAME_SIZE" using "1.prems"(2) by simp
    have "sampleLoop i s = s" using False by (subst sampleLoop.simps) simp
    then show ?thesis
      using "1.prems"(1) by (simp add: i wf_def WEBEAUDIO_FRAME_SIZE_def)
  qed
qed

lemma filter_block_spec:
  assumes "wf s"
  shows "spec_block (tune (filter_block s)) (resQuad (filter_block s)) (inputBuffer s) (ladderOf s)
           = (outputBuffer (filter_block s), ladderOf (filter_block s))"
proof -
  let ?s3 = "updateFilterCoefficients
     (s\<lparr>cutoff := smoothParameter (cutoff s) (targetCutoff s) (cutoffSmoothing s),
        resonance := smoothParameter (resonance s) (targetResonance s) (resonanceSmoothing s)\<rparr>)"
  have f: "filter_block s = sampleLoop 0 ?s3" by (simp add: filter_block_def Let_def)
  have w: "wf ?s3" using assms by (simp add: wf_def)
  have c: "tune (filter_block s) = tune ?s3" "resQuad (filter_block s) = resQuad ?s3"
    using ladderFrame_fields(2,4) [OF filter_block_frame [of s]] by simp_all
  have l: "ladderOf ?s3 = ladderOf s" "inputBuffer ?s3 = inputBuffer s"
    by (simp_all add: ladderOf_def)
  from sampleLoop_spec [OF w, of 0] show ?thesis
    unfolding c f [symmetric] l by simp
qed

text \<open>
  C5. One sub-step of the code computes what steps 1 to 6 of the specification compute:
  the feedback input \<open>dcBlockedSample - resQuad * delay[5]\<close>, the four stages in order
  with the caches \<open>stageTanh[0..2]\<close> (stage 3 saturating its own previous delay value
  afresh), \<open>delay[5] = (newStage3 + delay[4]) / 2\<close> and \<open>delay[4] = newStage3\<close>. The
  inner loop runs exactly two sub-steps. For every sample the code applies the DC blocker,
  then the two sub-steps, and writes \<open>delay[5]\<close> to the output; the output block of
  \<^verbatim>\<open>filter\<close> is the list of these samples, in order.
\<close>

theorem ladder_core_follows_spec:
  assumes "wf s"
  shows "(delay (ladderSubstep d s), stageTanh (ladderSubstep d s))
           = spec_substep (tune s) (resQuad s) d (delay s, stageTanh s)
   \<and> oversampleLoop 0 d s = ladderSubstep d (ladderSubstep d s)
   \<and> (i < WEBEAUDIO_FRAME_SIZE \<longrightarrow>
        spec_sample (tune s) (resQuad s) (inputBuffer s ! i) (ladderOf s)
          = (outputBuffer (processSample i s) ! i, ladderOf (processSample i s))
        \<and> outputBuffer (processSample i s) ! i = delay (processSample i s) ! 5)
   \<and> spec_block (tune (filter_block s)) (resQuad (filter_block s)) (inputBuffer s) (ladderOf s)
       = (outputBuffer (filter_block s), ladderOf (filter_block s))"
  using substep_spec(1) [OF assms, of d] oversample_twice [of d s]
    sample_spec [OF assms, of i] filter_block_spec [OF assms]
  by blast

theorem ladder_core_follows_spec_witness:
  "wf drivenState \<and> (0 :: nat) < WEBEAUDIO_FRAME_SIZE
   \<and> delay (ladderSubstep 1 drivenState) ! 0
       = 1 + 2 * (enhanced_tanh ((1 - 3 * 6) * thermal) - 1 / 2)
   \<and> stageTanh (ladderSubstep 1 drivenState) ! 0
       = enhanced_tanh (delay (ladderSubstep 1 drivenState) ! 0 * thermal)
   \<and> delay (ladderSubstep 1 drivenState) ! 1
       = 2 + 2 * (stageTanh (ladderSubstep 1 drivenState) ! 0 - 1 / 3)
   \<and> stageTanh (ladderSubstep 1 drivenState) ! 1
       = enhanced_tanh (delay (ladderSubstep 1 drivenState) ! 1 * thermal)
   \<and> delay (ladderSubstep 1 drivenState) ! 2
       = 3 + 2 * (stageTanh (ladderSubstep 1 drivenState) ! 1 - 1 / 4)
   \<and> stageTanh (ladderSubstep 1 drivenState) ! 2
       = enhanced_tanh (delay (ladderSubstep 1 drivenState) ! 2 * thermal)
   \<and> delay (ladderSubstep 1 drivenState) ! 3
       = 4 + 2 * (stageTanh (ladderSubstep 1 drivenState) ! 2 - enhanced_tanh (4 * thermal))
   \<and> delay (ladderSubstep 1 drivenState) ! 4 = delay (ladderSubstep 1 drivenState) ! 3
   \<and> delay (ladderSubstep 1 drivenState) ! 5
       = (delay (ladderSubstep 1 drivenState) ! 3 + 5) / 2
   \<and> oversampleLoop 0 1 drivenState = ladderSubstep 1 (ladderSubstep 1 drivenState)
   \<and> dcBlockInput (processSample 0 drivenState) = 1
   \<and> dcBlockOutput (processSample 0 drivenState) = 1 - 1 / 2 + dcBlockCoeff * 2
   \<and> outputBuffer (processSample 0 drivenState) ! 0 = delay (processSample 0 drivenState) ! 5
   \<and> spec_block (tune (filter_block drivenState)) (resQuad (filter_block drivenState))
         (replicate 128 1) (1 / 2, 2, [1, 2, 3, 4, 5, 6], [1 / 2, 1 / 3, 1 / 4])
       = (outputBuffer (filter_block drivenState), ladderOf (filter_block drivenState))"
proof -
  let ?X = "ladderSubstep 1 drivenState"
  let ?P = "processSample 0 drivenState"
  have w: "wf drivenState" by (simp add: wf_def drivenState_def fresh_def)
  have i: "(0 :: nat) < WEBEAUDIO_FRAME_SIZE" by (simp add: WEBEAUDIO_FRAME_SIZE_def)
  have v: "tune drivenState = 2" "resQuad drivenState = 3"
    "delay drivenState = [1, 2, 3, 4, 5, 6]" "stageTanh drivenState = [1 / 2, 1 / 3, 1 / 4]"
    "inputBuffer drivenState = replicate 128 1"
    "ladderOf drivenState = (1 / 2, 2, [1, 2, 3, 4, 5, 6], [1 / 2, 1 / 3, 1 / 4])"
    by (simp_all add: drivenState_def ladderOf_def)
  note th = ladder_core_follows_spec [OF w, of 1 0]
  have sub: "(delay ?X, stageTanh ?X)
               = spec_substep 2 3 1 ([1, 2, 3, 4, 5, 6], [1 / 2, 1 / 3, 1 / 4])"
    using th by (simp add: v)
  have dX: "delay ?X = fst (spec_substep 2 3 1 ([1, 2, 3, 4, 5, 6], [1 / 2, 1 / 3, 1 / 4]))"
    and tX: "stageTanh ?X = snd (spec_substep 2 3 1 ([1, 2, 3, 4, 5, 6], [1 / 2, 1 / 3, 1 / 4]))"
    using sub [symmetric] by simp_all
  have 1: "delay ?X ! 0 = 1 + 2 * (enhanced_tanh ((1 - 3 * 6) * thermal) - 1 / 2)"
    and 2: "stageTanh ?X ! 0 = enhanced_tanh (delay ?X ! 0 * thermal)"
    and 3: "delay ?X ! 1 = 2 + 2 * (stageTanh ?X ! 0 - 1 / 3)"
    and 4: "stageTanh ?X ! 1 = enhanced_tanh (delay ?X ! 1 * thermal)"
    and 5: "delay ?X ! 2 = 3 + 2 * (stageTanh ?X ! 1 - 1 / 4)"
    and 6: "stageTanh ?X ! 2 = enhanced_tanh (delay ?X ! 2 * thermal)"
    and 7: "delay ?X ! 3 = 4 + 2 * (stageTanh ?X ! 2 - enhanced_tanh (4 * thermal))"
    and 8: "delay ?X ! 4 = delay ?X ! 3"
    and 9: "delay ?X ! 5 = (delay ?X ! 3 + 5) / 2"
    unfolding dX tX by (simp_all add: spec_substep_def Let_def)
  have two: "oversampleLoop 0 1 drivenState = ladderSubstep 1 ?X"
    using th by blast
  have smp: "spec_sample 2 3 1 (1 / 2, 2, [1, 2, 3, 4, 5, 6], [1 / 2, 1 / 3, 1 / 4])
               = (outputBuffer ?P ! 0, ladderOf ?P)"
    and out: "outputBuffer ?P ! 0 = delay ?P ! 5"
    using th i by (simp_all add: v)
  have "ladderOf ?P = snd (spec_sample 2 3 1 (1 / 2, 2, [1, 2, 3, 4, 5, 6], [1 / 2, 1 / 3, 1 / 4]))"
    by (rule arg_cong [where f = snd, OF smp, simplified snd_conv, symmetric])
  then have dc: "dcBlockInput ?P = 1" "dcBlockOutput ?P = 1 - 1 / 2 + dcBlockCoeff * 2"
    by (simp_all add: ladderOf_def spec_sample_def Let_def)
  have blk: "spec_block (tune (filter_block drivenState)) (resQuad (filter_block drivenState))
         (replicate 128 1) (1 / 2, 2, [1, 2, 3, 4, 5, 6], [1 / 2, 1 / 3, 1 / 4])
       = (outputBuffer (filter_block drivenState), ladderOf (filter_block drivenState))"
    using th by (simp add: v)
  from w i 1 2 3 4 5 6 7 8 9 two dc out blk show ?thesis by (intro conjI)
qed

subsection \<open>Initialisation\<close>

lemma tanh_ge_twice:
  fixes y :: real
  assumes "y \<le> 0"
  shows "2 * y \<le> tanh y"
proof -
  define u where "u = - y"
  define e where "e = exp (- 2 * u)"
  have u0: "0 \<le> u" using assms by (simp add: u_def)
  have e1: "1 - 2 * u \<le> e"
    using exp_ge_add_one_self [of "- 2 * u"] by (simp add: e_def)
  have e2: "e \<le> 1" using u0 by (simp add: e_def)
  have e0: "0 < e" by (simp add: e_def)
  have "(1 - e) / (1 + e) \<le> (1 - e) / 1"
    using e0 e2 by (intro divide_left_mono) simp_all
  then have "(1 - e) / (1 + e) \<le> 2 * u" using e1 by simp
  then have "tanh u \<le> 2 * u"
    by (simp add: tanh_real_altdef [of u] e_def)
  then show ?thesis by (simp add: u_def)
qed

lemma enhanced_tanh_nonpos:
  assumes "y \<le> 0"
  shows "41 / 20 * y \<le> enhanced_tanh y" "enhanced_tanh y \<le> 0"
    "y < 0 \<Longrightarrow> enhanced_tanh y < 0"
proof -
  define a where "a = \<bar>y\<bar>"
  define L where "L = a / (1.0 + a)"
  define F where "F = 1.0 / (1.0 + 2.0 * L)"
  define asym :: real where "asym = (if y > 0 then 1.0 else 0.98)"
  have e: "enhanced_tanh y =
      asym * tanh y * (1.0 + 0.015 * L * F) + 0.008 * y * L * F / (1.0 + a)
      + 0.006 * y * L * L * F + 0.004 * y * L * F"
    unfolding enhanced_tanh_def Let_def a_def L_def F_def asym_def by (rule refl)
  have a0: "0 \<le> a" by (simp add: a_def)
  have L0: "0 \<le> L" using a0 by (simp add: L_def)
  have L1: "L \<le> 1" using a0 by (simp add: L_def)
  have F0: "0 \<le> F" using L0 by (simp add: F_def)
  have F1: "F \<le> 1" using L0 by (simp add: F_def)
  define M where "M = L * F"
  define N where "N = L * M"
  define Q where "Q = M / (1 + a)"
  have M0: "0 \<le> M" and M1: "M \<le> 1"
    using L0 L1 F0 F1 by (simp_all add: M_def mult_le_one)
  have N0: "0 \<le> N" and N1: "N \<le> 1"
    using L0 L1 M0 M1 by (simp_all add: N_def mult_le_one)
  have Q0: "0 \<le> Q" using M0 a0 by (simp add: Q_def)
  have "M / (1 + a) \<le> 1 / 1"
    using M0 M1 a0 by (intro frac_le) simp_all
  then have Q1: "Q \<le> 1" by (simp add: Q_def)
  have as: "asym = 49 / 50" using assms by (simp add: asym_def)
  define th where "th = tanh y"
  have th0: "th \<le> 0" and th2: "2 * y \<le> th"
    using assms tanh_ge_twice [OF assms] by (simp_all add: th_def)
  define p where "p = th * (1 + 3 / 200 * M)"
  have f: "1 \<le> 1 + 3 / 200 * M" "1 + 3 / 200 * M \<le> 203 / 200"
    using M0 M1 by simp_all
  have "th * (203 / 200) \<le> th * (1 + 3 / 200 * M)"
    using f(2) th0 by (rule mult_left_mono_neg)
  then have p_lo: "203 / 100 * y \<le> p" using th2 by (simp add: p_def)
  have p_hi: "p \<le> 0"
    unfolding p_def using th0 f(1) by (intro mult_nonpos_nonneg) simp_all
  have yQ: "y \<le> y * Q" "y * Q \<le> 0"
    using assms Q0 Q1 mult_left_mono_neg [of Q 1 y] by (simp_all add: mult_nonpos_nonneg)
  have yN: "y \<le> y * N" "y * N \<le> 0"
    using assms N0 N1 mult_left_mono_neg [of N 1 y] by (simp_all add: mult_nonpos_nonneg)
  have yM: "y \<le> y * M" "y * M \<le> 0"
    using assms M0 M1 mult_left_mono_neg [of M 1 y] by (simp_all add: mult_nonpos_nonneg)
  have e': "enhanced_tanh y =
      49 / 50 * p + 1 / 125 * (y * Q) + 3 / 500 * (y * N) + 1 / 250 * (y * M)"
    unfolding e as p_def th_def Q_def N_def M_def by (simp add: mult.assoc)
  show "41 / 20 * y \<le> enhanced_tanh y"
    unfolding e' using p_lo yQ(1) yN(1) yM(1) assms by linarith
  show "enhanced_tanh y \<le> 0"
    unfolding e' using p_hi yQ(2) yN(2) yM(2) by linarith
  show "enhanced_tanh y < 0" if "y < 0"
  proof -
    have "th < 0" using that by (simp add: th_def)
    then have "p < 0"
      unfolding p_def using f(1) by (intro mult_neg_pos) simp_all
    then show ?thesis
      unfolding e' using yQ(2) yN(2) yM(2) by linarith
  qed
qed

lemma gain_bounds:
  assumes "0 < T" "T * thermal * (41 / 20) \<le> 1" "y \<le> 0"
  shows "y \<le> T * enhanced_tanh (y * thermal)" "T * enhanced_tanh (y * thermal) \<le> 0"
    "y < 0 \<Longrightarrow> T * enhanced_tanh (y * thermal) < 0"
proof -
  have th: "0 < thermal" by (simp add: thermal_def)
  have z: "y * thermal \<le> 0"
    using assms(3) th by (simp add: mult_nonpos_nonneg)
  note E = enhanced_tanh_nonpos [OF z]
  have "1 * y \<le> (T * thermal * (41 / 20)) * y"
    using assms(2,3) by (rule mult_right_mono_neg)
  then have "y \<le> (T * thermal * (41 / 20)) * y" by simp
  also have "\<dots> = T * (41 / 20 * (y * thermal))" by simp
  also have "\<dots> \<le> T * enhanced_tanh (y * thermal)"
    using E(1) assms(1) by (intro mult_left_mono) simp_all
  finally show "y \<le> T * enhanced_tanh (y * thermal)" .
  show "T * enhanced_tanh (y * thermal) \<le> 0"
    using E(2) assms(1) by (simp add: mult_nonneg_nonpos)
  show "T * enhanced_tanh (y * thermal) < 0" if "y < 0"
  proof -
    have "y * thermal < 0" using that th by (simp add: mult_neg_pos)
    then have "enhanced_tanh (y * thermal) < 0"
      using enhanced_tanh_nonpos(3) [OF z] by simp
    then show ?thesis using assms(1) by (simp add: mult_pos_neg)
  qed
qed

lemma first_substep_from_rest:
  assumes "0 < T" "T * thermal * (41 / 20) \<le> 1" "d < 0"
  shows "\<exists>v0 v1 v2 v3 h0 h1 h2.
           spec_substep T R d ([0, 0, 0, 0, 0, 0], [0, 0, 0])
             = ([v0, v1, v2, v3, v3, v3 / 2], [h0, h1, h2])
           \<and> d \<le> v0 \<and> v0 \<le> v1 \<and> v1 \<le> v2 \<and> v2 \<le> v3 \<and> v3 < 0
           \<and> T * h0 = v1 \<and> T * h1 = v2 \<and> T * h2 = v3"
proof -
  define v0 where "v0 = T * enhanced_tanh (d * thermal)"
  define h0 where "h0 = enhanced_tanh (v0 * thermal)"
  define v1 where "v1 = T * h0"
  define h1 where "h1 = enhanced_tanh (v1 * thermal)"
  define v2 where "v2 = T * h1"
  define h2 where "h2 = enhanced_tanh (v2 * thermal)"
  define v3 where "v3 = T * h2"
  have eq: "spec_substep T R d ([0, 0, 0, 0, 0, 0], [0, 0, 0])
             = ([v0, v1, v2, v3, v3, v3 / 2], [h0, h1, h2])"
    by (simp add: spec_substep_def Let_def enhanced_tanh_zero
        v3_def h2_def v2_def h1_def v1_def h0_def v0_def)
  have d0: "d \<le> 0" using assms(3) by simp
  have b0: "d \<le> v0" "v0 < 0"
    unfolding v0_def using gain_bounds(1,3) [OF assms(1,2) d0] assms(3) by simp_all
  then have v00: "v0 \<le> 0" by simp
  have b1: "v0 \<le> v1" "v1 < 0"
    unfolding v1_def h0_def using gain_bounds(1,3) [OF assms(1,2) v00] b0(2) by simp_all
  then have v10: "v1 \<le> 0" by simp
  have b2: "v1 \<le> v2" "v2 < 0"
    unfolding v2_def h1_def using gain_bounds(1,3) [OF assms(1,2) v10] b1(2) by simp_all
  then have v20: "v2 \<le> 0" by simp
  have b3: "v2 \<le> v3" "v3 < 0"
    unfolding v3_def h2_def using gain_bounds(1,3) [OF assms(1,2) v20] b2(2) by simp_all
  from eq b0(1) b1(1) b2(1) b3 v1_def v2_def v3_def show ?thesis by blast
qed

lemma second_substep_negative:
  assumes "0 < T" "T * thermal * (41 / 20) \<le> 1" "0 \<le> R" "R \<le> 2" "d < 0"
    and "d \<le> v0" "v0 \<le> v1" "v1 \<le> v2" "v2 \<le> v3" "v3 < 0"
    and "T * h0 = v1" "T * h1 = v2" "T * h2 = v3"
  shows "fst (spec_substep T R d ([v0, v1, v2, v3, v3, v3 / 2], [h0, h1, h2])) ! 5 < 0"
proof -
  define fb where "fb = d - R * (v3 / 2)"
  define n0 where "n0 = v0 + T * (enhanced_tanh (fb * thermal) - h0)"
  define n1 where "n1 = v1 + T * (enhanced_tanh (n0 * thermal) - h1)"
  define n2 where "n2 = v2 + T * (enhanced_tanh (n1 * thermal) - h2)"
  define n3 where "n3 = v3 + T * (enhanced_tanh (n2 * thermal) - enhanced_tanh (v3 * thermal))"
  have out: "fst (spec_substep T R d ([v0, v1, v2, v3, v3, v3 / 2], [h0, h1, h2])) ! 5
               = (n3 + v3) / 2"
    by (simp add: spec_substep_def Let_def n3_def n2_def n1_def n0_def fb_def)
  have "R * d \<le> R * v3" using assms(6-9) assms(3) by (intro mult_left_mono) simp_all
  moreover have "2 * d \<le> R * d" using assms(4,5) by (intro mult_right_mono_neg) simp_all
  ultimately have fb0: "fb \<le> 0" by (simp add: fb_def)
  have e0: "n0 = v0 + T * enhanced_tanh (fb * thermal) - T * h0"
    by (simp add: n0_def right_diff_distrib)
  have n00: "n0 \<le> 0"
    unfolding e0 assms(11) using gain_bounds(2) [OF assms(1,2) fb0] assms(7) by linarith
  have e1: "n1 = v1 + T * enhanced_tanh (n0 * thermal) - T * h1"
    by (simp add: n1_def right_diff_distrib)
  have n10: "n1 \<le> 0"
    unfolding e1 assms(12) using gain_bounds(2) [OF assms(1,2) n00] assms(8) by linarith
  have e2: "n2 = v2 + T * enhanced_tanh (n1 * thermal) - T * h2"
    by (simp add: n2_def right_diff_distrib)
  have n20: "n2 \<le> 0"
    unfolding e2 assms(13) using gain_bounds(2) [OF assms(1,2) n10] assms(9) by linarith
  have e3: "n3 = v3 + T * enhanced_tanh (n2 * thermal) - T * enhanced_tanh (v3 * thermal)"
    by (simp add: n3_def right_diff_distrib)
  have v30: "v3 \<le> 0" using assms(10) by simp
  have n30: "n3 \<le> 0"
    unfolding e3 using gain_bounds(2) [OF assms(1,2) n20] gain_bounds(1) [OF assms(1,2) v30]
    by linarith
  show ?thesis unfolding out using n30 assms(10) by simp
qed

lemma first_sample_negative:
  assumes "0 < T" "T * thermal * (41 / 20) \<le> 1" "0 \<le> R" "R \<le> 2" "d < 0"
  shows "fst (spec_substep T R d (spec_substep T R d ([0, 0, 0, 0, 0, 0], [0, 0, 0]))) ! 5 < 0"
proof -
  obtain v0 v1 v2 v3 h0 h1 h2 where
    eq: "spec_substep T R d ([0, 0, 0, 0, 0, 0], [0, 0, 0])
           = ([v0, v1, v2, v3, v3, v3 / 2], [h0, h1, h2])"
    and b: "d \<le> v0" "v0 \<le> v1" "v1 \<le> v2" "v2 \<le> v3" "v3 < 0"
      "T * h0 = v1" "T * h1 = v2" "T * h2 = v3"
    using first_substep_from_rest [OF assms(1,2,5), of R] by blast
  show ?thesis
    unfolding eq by (rule second_substep_negative [OF assms b])
qed

lemma default_coefficient_bounds:
  assumes "cutoff s = 1000" "resonance s = 1 / 10"
  shows "0 < tune (updateFilterCoefficients s)"
    "tune (updateFilterCoefficients s) * thermal * (41 / 20) \<le> 1"
    "0 \<le> resQuad (updateFilterCoefficients s)"
    "resQuad (updateFilterCoefficients s) \<le> 2"
proof -
  define fc where "fc = clampedFc 1000"
  define g where "g = (2 * PI) * (fc * 0.5)
      * (1.8730 * (fc * fc * fc) + 0.4955 * (fc * fc) - 0.6490 * fc + 0.9988)"
  have fc: "fc = 10 / 441"
    by (simp add: fc_def clampedFc_def SAMPLE_RATE_def)
  have g0: "0 < g" and g1: "g \<le> 20 / 41"
    by (simp_all add: g_def fc PI_def)
  have T: "tune (updateFilterCoefficients s) = (1 - exp (- g)) / thermal"
    by (simp add: ufc_coefficients(2) assms(1) g_def fc_def)
  have th: "0 < thermal" by (simp add: thermal_def)
  have e1: "exp (- g) < 1" using g0 by simp
  have e2: "1 - g \<le> exp (- g)" using exp_ge_add_one_self [of "- g"] by simp
  show "0 < tune (updateFilterCoefficients s)"
    unfolding T using e1 th by simp
  have "tune (updateFilterCoefficients s) * thermal = 1 - exp (- g)"
    unfolding T using th by simp
  then show "tune (updateFilterCoefficients s) * thermal * (41 / 20) \<le> 1"
    using e2 g1 by simp
  have R: "resQuad (updateFilterCoefficients s)
             = 4 * (1 / 10) * (- 3.9364 * (fc * fc) + 1.8409 * fc + 0.9968)"
    by (simp add: ufc_coefficients(1,3) assms fc_def)
  show "0 \<le> resQuad (updateFilterCoefficients s)"
    "resQuad (updateFilterCoefficients s) \<le> 2"
    unfolding R fc by simp_all
qed

lemma dc_after_block:
  "i \<le> 127 \<Longrightarrow> dcBlockInput s = 0 \<Longrightarrow> dcBlockOutput s = 0 \<Longrightarrow>
   \<forall>j. i \<le> j \<and> j < 127 \<longrightarrow> inputBuffer s ! j = 0 \<Longrightarrow>
     dcBlockInput (sampleLoop i s) = inputBuffer s ! 127
     \<and> dcBlockOutput (sampleLoop i s) = inputBuffer s ! 127"
proof (induction i s rule: sampleLoop.induct)
  case (1 i s)
  have lt: "i < WEBEAUDIO_FRAME_SIZE" using "1.prems"(1) by (simp add: WEBEAUDIO_FRAME_SIZE_def)
  have unf: "sampleLoop i s = sampleLoop (i + 1) (processSample i s)"
    using lt by (subst sampleLoop.simps) simp
  show ?case
  proof (cases "i < 127")
    case True
    then have x: "inputBuffer s ! i = 0" using "1.prems"(4) by simp
    have "dcBlockInput (sampleLoop (i + 1) (processSample i s))
            = inputBuffer (processSample i s) ! 127
          \<and> dcBlockOutput (sampleLoop (i + 1) (processSample i s))
            = inputBuffer (processSample i s) ! 127"
      using True "1.prems" x by (intro "1.IH" [OF lt]) simp_all
    then show ?thesis unfolding unf by simp
  next
    case False
    then have i: "i = 127" using "1.prems"(1) by simp
    have "sampleLoop (i + 1) (processSample i s) = processSample i s"
      by (subst sampleLoop.simps) (simp add: i WEBEAUDIO_FRAME_SIZE_def)
    then show ?thesis unfolding unf using "1.prems"(2,3) by (simp add: i)
  qed
qed

lemma zeros6: "replicate 6 (0 :: real) = [0, 0, 0, 0, 0, 0]"
  by (simp add: eval_nat_numeral)

lemma zeros3: "replicate 3 (0 :: real) = [0, 0, 0]"
  by (simp add: eval_nat_numeral)

lemma spec_block_silence:
  "spec_block T R (replicate n 0) (0, 0, [0, 0, 0, 0, 0, 0], [0, 0, 0])
     = (replicate n 0, 0, 0, [0, 0, 0, 0, 0, 0], [0, 0, 0])"
  by (induction n)
    (simp_all add: spec_sample_def spec_substep_def Let_def enhanced_tanh_zero)

lemma fresh_silence: "outputBuffer (filter_block fresh) = replicate 128 0"
proof -
  have w: "wf fresh" by (simp add: wf_def fresh_def)
  have l: "ladderOf fresh = (0, 0, [0, 0, 0, 0, 0, 0], [0, 0, 0])"
    "inputBuffer fresh = replicate 128 0"
    by (simp_all add: ladderOf_def fresh_def zeros6 zeros3)
  from filter_block_spec [OF w] show ?thesis
    unfolding l spec_block_silence by simp
qed

lemma silence_after_dc:
  assumes "wf s" "cutoff s = 1000" "targetCutoff s = 1000"
    and "resonance s = 1 / 10" "targetResonance s = 1 / 10"
    and "delay s = replicate 6 0" "stageTanh s = replicate 3 0"
    and "dcBlockInput s = 1" "dcBlockOutput s = 1"
    and "inputBuffer s = replicate 128 0"
  shows "outputBuffer (filter_block s) ! 0 < 0"
proof -
  let ?s2 = "s\<lparr>cutoff := smoothParameter (cutoff s) (targetCutoff s) (cutoffSmoothing s),
     resonance := smoothParameter (resonance s) (targetResonance s) (resonanceSmoothing s)\<rparr>"
  define T where "T = tune (filter_block s)"
  define R where "R = resQuad (filter_block s)"
  have c: "cutoff ?s2 = 1000" "resonance ?s2 = 1 / 10"
    using assms(2-5) by (simp_all add: smoothParameter_def)
  have TR: "T = tune (updateFilterCoefficients ?s2)" "R = resQuad (updateFilterCoefficients ?s2)"
    unfolding T_def R_def using ladderFrame_fields(2,4) [OF filter_block_frame [of s]]
    by simp_all
  note b = default_coefficient_bounds [OF c, folded TR]
  have l: "ladderOf s = (1, 1, [0, 0, 0, 0, 0, 0], [0, 0, 0])"
    using assms(6-9) by (simp add: ladderOf_def zeros6 zeros3)
  have i: "inputBuffer s = 0 # replicate 127 0"
    unfolding assms(10) by (simp add: eval_nat_numeral)
  have "spec_block T R (0 # replicate 127 0) (1, 1, [0, 0, 0, 0, 0, 0], [0, 0, 0])
          = (outputBuffer (filter_block s), ladderOf (filter_block s))"
    using filter_block_spec [OF assms(1)] unfolding l i T_def R_def .
  then have "outputBuffer (filter_block s) ! 0
          = fst (spec_sample T R 0 (1, 1, [0, 0, 0, 0, 0, 0], [0, 0, 0]))"
    by (simp add: Let_def) (metis fst_conv nth_Cons_0)
  also have "\<dots> = fst (spec_substep T R (- (1 / 200))
        (spec_substep T R (- (1 / 200)) ([0, 0, 0, 0, 0, 0], [0, 0, 0]))) ! 5"
    by (simp add: spec_sample_def Let_def dcBlockCoeff_def)
  also have "\<dots> < 0"
    by (rule first_sample_negative [OF b]) simp
  finally show ?thesis .
qed

lemma init_fields:
  "dcBlockInput (init s) = dcBlockInput s"
  "dcBlockOutput (init s) = dcBlockOutput s"
  "cutoff (init s) = cutoff s"
  "resonance (init s) = resonance s"
  "inputBuffer (init s) = inputBuffer s"
  "delay (init s) = replicate 6 0"
  "stageTanh (init s) = replicate 3 0"
  "targetResonance (init s) = 1 / 10"
  "envelopeActive s = 0 \<Longrightarrow> targetCutoff (init s) = 1000"
  "envelopeActive s \<noteq> 0 \<Longrightarrow> targetCutoff (init s) = targetCutoff s"
  "wf s \<Longrightarrow> wf (init s)"
  by (simp_all add: init_def Let_def setCutoff_def setResonance_def wf_def)

text \<open>
  C2. \<^verbatim>\<open>init\<close> assigns neither the DC-blocker state nor the live cutoff and resonance,
  and, when the envelope is active, it leaves the target cutoff as it is, because
  \<^verbatim>\<open>setCutoff(1000)\<close> runs before \<^verbatim>\<open>envelopeActive\<close> is cleared. A fresh module turns
  a silent block into a silent block. After a block whose last sample is 1, \<^verbatim>\<open>init\<close>
  followed by a silent block gives a first output sample below 0.
\<close>

theorem init_keeps_live_state:
  "dcBlockInput (init s) = dcBlockInput s
   \<and> dcBlockOutput (init s) = dcBlockOutput s
   \<and> cutoff (init s) = cutoff s
   \<and> resonance (init s) = resonance s
   \<and> targetCutoff (init (setEnvelopeCutoff 5000 (setEnvelopeActive 1 fresh))) = 5000
   \<and> outputBuffer (filter_block fresh) = replicate 128 0
   \<and> (\<exists>s4. run [WriteInput 127 1, Filter, Init, WriteInput 127 0] fresh = Inr s4
          \<and> inputBuffer s4 = replicate 128 0
          \<and> dcBlockInput s4 = 1 \<and> dcBlockOutput s4 = 1
          \<and> outputBuffer (filter_block s4) ! 0 < 0
          \<and> outputBuffer (filter_block s4) \<noteq> outputBuffer (filter_block fresh))"
proof -
  define s1 where "s1 = fresh\<lparr>inputBuffer := (inputBuffer fresh)[127 := 1]\<rparr>"
  define s1' where "s1' = updateFilterCoefficients
     (s1\<lparr>cutoff := smoothParameter (cutoff s1) (targetCutoff s1) (cutoffSmoothing s1),
         resonance :=
           smoothParameter (resonance s1) (targetResonance s1) (resonanceSmoothing s1)\<rparr>)"
  define s2 where "s2 = filter_block s1"
  define s3 where "s3 = init s2"
  define s4 where "s4 = s3\<lparr>inputBuffer := (inputBuffer s3)[127 := 0]\<rparr>"
  have r: "run [WriteInput 127 1, Filter, Init, WriteInput 127 0] fresh = Inr s4"
    by (simp add: WEBEAUDIO_FRAME_SIZE_def s1_def s2_def s3_def s4_def)
  have w1: "wf s1" by (simp add: s1_def wf_def fresh_def)
  have f1: "cutoff s1 = 1000" "targetCutoff s1 = 1000" "resonance s1 = 1 / 10"
    "targetResonance s1 = 1 / 10" "envelopeActive s1 = 0"
    "inputBuffer s1 = (replicate 128 0)[127 := 1]"
    by (simp_all add: s1_def fresh_def)
  have in1: "inputBuffer s1' = (replicate 128 0)[127 := 1]"
    "dcBlockInput s1' = 0" "dcBlockOutput s1' = 0"
    by (simp_all add: s1'_def s1_def fresh_def)
  have z: "\<forall>j. 0 \<le> j \<and> j < 127 \<longrightarrow> inputBuffer s1' ! j = 0"
    unfolding in1 by simp
  have s2': "s2 = sampleLoop 0 s1'"
    by (simp add: s2_def s1'_def filter_block_def Let_def)
  have dc2: "dcBlockInput s2 = 1" "dcBlockOutput s2 = 1"
    unfolding s2' using dc_after_block [of 0 s1', OF _ in1(2,3) z] by (simp_all add: in1(1))
  have f2: "cutoff s2 = 1000" "targetCutoff s2 = 1000" "resonance s2 = 1 / 10"
    "targetResonance s2 = 1 / 10" "envelopeActive s2 = 0"
    "inputBuffer s2 = (replicate 128 0)[127 := 1]"
    unfolding s2_def by (simp_all add: filter_block_fields f1 smoothParameter_def)
  have w2: "wf s2" unfolding s2_def using w1 by (rule wf_filter_block)
  have f3: "cutoff s3 = 1000" "targetCutoff s3 = 1000" "resonance s3 = 1 / 10"
    "targetResonance s3 = 1 / 10" "delay s3 = replicate 6 0" "stageTanh s3 = replicate 3 0"
    "dcBlockInput s3 = 1" "dcBlockOutput s3 = 1"
    "inputBuffer s3 = (replicate 128 0)[127 := 1]" "wf s3"
    unfolding s3_def by (simp_all add: init_fields f2 dc2 w2)
  have in4: "inputBuffer s4 = replicate 128 0"
    by (simp add: s4_def f3(9) list_eq_iff_nth_eq nth_list_update)
  have f4: "wf s4" "cutoff s4 = 1000" "targetCutoff s4 = 1000" "resonance s4 = 1 / 10"
    "targetResonance s4 = 1 / 10" "delay s4 = replicate 6 0" "stageTanh s4 = replicate 3 0"
    "dcBlockInput s4 = 1" "dcBlockOutput s4 = 1"
    using f3 by (simp_all add: s4_def wf_def)
  have neg: "outputBuffer (filter_block s4) ! 0 < 0"
    using f4 in4 by (rule silence_after_dc)
  have "outputBuffer (filter_block fresh) ! 0 = 0"
    by (simp add: fresh_silence)
  with neg have ne: "outputBuffer (filter_block s4) \<noteq> outputBuffer (filter_block fresh)"
    by auto
  have t: "targetCutoff (init (setEnvelopeCutoff 5000 (setEnvelopeActive 1 fresh))) = 5000"
    by (simp add: init_fields setEnvelopeCutoff_def setEnvelopeActive_def Let_def fresh_def)
  from init_fields(1-4) [of s] t fresh_silence r in4 f4(8,9) neg ne show ?thesis
    by blast
qed

end
